theory Spec2Isabelle
  imports Complex_Main
begin

section \<open>The photo editor: data model\<close>

text \<open>
  A shallow embedding of \<^verbatim>\<open>src/components/ImageEditor.tsx\<close> and
  \<^verbatim>\<open>src/services/geminiService.ts\<close>. Each React state variable of the
  component is a field of the record \<open>editor\<close>; each event handler is a function from
  the state (and the event, and what the browser answers) to the new state.

  Numbers. A JavaScript number is an IEEE 754 binary64 value. The model keeps such a
  value as the \<open>real\<close> it denotes and rounds the result of every arithmetic operation
  with \<open>binary64\<close> (round to nearest, ties to even); the view handlers (wheel, zoom
  buttons, pan) are given in this reading only. The crop handlers are given twice. Their
  first reading leaves the rounding out: it is the geometry the handlers compute, and
  the bounds and ratios of the crop rectangle are stated on it. Their second reading,
  with names ending in \<open>64\<close>, rounds every operation; what is said about exact
  equality of a width or a height is decided there. Infinities and NaN are in neither
  reading: where the source divides, the theorems assume the divisor is not zero, and
  magnitudes are assumed to stay below the overflow threshold. The rotation angle and
  the two slider values only ever hold whole numbers (the sliders have step 1, the
  rotate buttons add 90 or -90) and are \<open>int\<close>.

  Strings are \<open>string\<close>, one \<open>char\<close> per UTF-16 code unit below 256.
\<close>

subsection \<open>Strings\<close>

text \<open>
  \<^verbatim>\<open>String.prototype.trim\<close> strips white space and line terminators from both ends;
  below 256 these are the code units 9 to 13, 32 and 160.
\<close>

definition is_white_space :: "char \<Rightarrow> bool" where
  "is_white_space c = (of_char c \<in> {9::nat, 10, 11, 12, 13, 32, 160})"

definition trim :: "string \<Rightarrow> string" where
  "trim s = rev (dropWhile is_white_space (rev (dropWhile is_white_space s)))"

text \<open>\<^verbatim>\<open>s.split(c)\<close> for a one-character separator, and \<^verbatim>\<open>parts.join(' ')\<close>.\<close>

fun split_at :: "char \<Rightarrow> string \<Rightarrow> string list" where
  "split_at c [] = [[]]"
| "split_at c (x # xs) =
     (if x = c then [] # split_at c xs
      else case split_at c xs of [] \<Rightarrow> [[x]] | p # ps \<Rightarrow> (x # p) # ps)"

fun join_space :: "string list \<Rightarrow> string" where
  "join_space [] = []"
| "join_space [s] = s"
| "join_space (s # t # ts) = s @ '' '' @ join_space (t # ts)"

text \<open>\<^verbatim>\<open>xs[i]\<close>: \<open>None\<close> is JavaScript's \<^verbatim>\<open>undefined\<close>.\<close>

definition element_at :: "'a list \<Rightarrow> nat \<Rightarrow> 'a option" where
  "element_at xs i = (if i < length xs then Some (xs ! i) else None)"

text \<open>
  A whole number inside a template literal is printed in decimal, a minus sign first
  when it is negative. The digits are collected from the least significant one;
  \<open>digit_char\<close> is only ever asked for a digit below 10.
\<close>

definition digit_char :: "nat \<Rightarrow> char" where
  "digit_char d = ''0123456789'' ! d"

fun decimal_digits :: "nat \<Rightarrow> string \<Rightarrow> string" where
  "decimal_digits n acc =
     (if n div 10 = 0 then digit_char n # acc
      else decimal_digits (n div 10) (digit_char (n mod 10) # acc))"

declare decimal_digits.simps [simp del]

definition number_text :: "int \<Rightarrow> string" where
  "number_text i =
     (if i < 0 then CHR ''-'' # decimal_digits (nat (- i)) [] else decimal_digits (nat i) [])"

text \<open>
  \<^verbatim>\<open>Number(s)\<close> for a string of decimal digits (\<open>None\<close> for any other string, where
  JavaScript gives NaN or reads another notation).
\<close>

definition is_digit :: "char \<Rightarrow> bool" where
  "is_digit c = (48 \<le> (of_char c :: nat) \<and> (of_char c :: nat) \<le> 57)"

definition Number_of :: "string \<Rightarrow> real option" where
  "Number_of s =
     (if s \<noteq> [] \<and> list_all is_digit s
      then Some (real (foldl (\<lambda>n c. 10 * n + (of_char c - 48)) 0 s))
      else None)"

subsection \<open>Binary64 arithmetic\<close>

text \<open>
  The exponent of a number of magnitude at least 1, and of a positive number below 1:
  how often it must be halved to come below 2, or doubled to reach 1.
\<close>

function exponent_up :: "real \<Rightarrow> int" where
  "exponent_up x = (if x < 2 then 0 else exponent_up (x / 2) + 1)"
  by pat_completeness auto
termination
proof (relation "measure (\<lambda>x. nat \<lfloor>x\<rfloor>)")
  show "wf (measure (\<lambda>x::real. nat \<lfloor>x\<rfloor>))" by simp
next
  fix x :: real
  assume "\<not> x < 2"
  then have "x / 2 \<le> x - 1" by simp
  then have "\<lfloor>x / 2\<rfloor> \<le> \<lfloor>x - 1\<rfloor>" by (rule floor_mono)
  moreover have "2 \<le> \<lfloor>x\<rfloor>" using \<open>\<not> x < 2\<close> by (simp add: le_floor_iff)
  ultimately show "(x / 2, x) \<in> measure (\<lambda>x. nat \<lfloor>x\<rfloor>)" by simp
qed

function exponent_down :: "real \<Rightarrow> int" where
  "exponent_down x = (if x \<le> 0 \<or> 1 \<le> x then 0 else exponent_down (2 * x) - 1)"
  by pat_completeness auto
termination
proof (relation "measure (\<lambda>x. nat \<lceil>1 / x\<rceil>)")
  show "wf (measure (\<lambda>x::real. nat \<lceil>1 / x\<rceil>))" by simp
next
  fix x :: real
  assume "\<not> (x \<le> 0 \<or> 1 \<le> x)"
  then have x: "0 < x" "x < 1" by simp_all
  then have y: "1 < 1 / x" by simp
  then have c2: "2 \<le> \<lceil>1 / x\<rceil>" by (simp add: le_ceiling_iff)
  have "1 / x / 2 \<le> real_of_int (\<lceil>1 / x\<rceil> - 1)"
  proof (cases "2 \<le> 1 / x")
    case True
    then have "1 / x / 2 \<le> 1 / x - 1" by simp
    also have "\<dots> \<le> real_of_int \<lceil>1 / x\<rceil> - 1" by simp
    finally show ?thesis by simp
  next
    case False
    then have "1 / x / 2 < 1" by simp
    also have "1 \<le> real_of_int (\<lceil>1 / x\<rceil> - 1)" using c2 by simp
    finally show ?thesis by simp
  qed
  then have "\<lceil>1 / x / 2\<rceil> \<le> \<lceil>1 / x\<rceil> - 1" by (rule ceiling_le)
  moreover have "1 / (2 * x) = 1 / x / 2" by simp
  ultimately have "\<lceil>1 / (2 * x)\<rceil> < \<lceil>1 / x\<rceil>" by (simp only:)
  then have "nat \<lceil>1 / (2 * x)\<rceil> < nat \<lceil>1 / x\<rceil>" using c2 by linarith
  then show "(2 * x, x) \<in> measure (\<lambda>x. nat \<lceil>1 / x\<rceil>)" by (simp only: in_measure)
qed

declare exponent_up.simps [simp del] exponent_down.simps [simp del]

text \<open>The exponent \<open>e\<close> with \<open>2^e \<le> |x| < 2^(e+1)\<close>, for \<open>x\<close> other than 0.\<close>

definition binade :: "real \<Rightarrow> int" where
  "binade x = (if 1 \<le> \<bar>x\<bar> then exponent_up \<bar>x\<bar> else exponent_down \<bar>x\<bar>)"

text \<open>Rounding to the nearest integer, a tie going to the even one.\<close>

definition round_half_even :: "real \<Rightarrow> int" where
  "round_half_even y =
     (let f = \<lfloor>y\<rfloor>; d = y - real_of_int f
      in if d < 1 / 2 then f else if 1 / 2 < d then f + 1 else if even f then f else f + 1)"

text \<open>
  The spacing of the binary64 numbers around \<open>x\<close>: 52 fraction bits below the exponent
  of \<open>x\<close>, and never finer than the subnormal spacing \<open>2^(-1074)\<close>.
\<close>

definition quantum :: "real \<Rightarrow> real" where
  "quantum x = 2 powi (max (binade x) (- 1022) - 52)"

text \<open>
  The binary64 number an exact result is rounded to. A result of magnitude \<open>2^1024\<close> or
  more would become an infinity, which is outside the model.
\<close>

definition binary64 :: "real \<Rightarrow> real" where
  "binary64 x = (if x = 0 then 0 else real_of_int (round_half_even (x / quantum x)) * quantum x)"

subsection \<open>Geometry\<close>

text \<open>The crop rectangle \<^verbatim>\<open>{ x, y, width, height }\<close>, relative to the image.\<close>

record crop_rect =
  crop_x :: real
  crop_y :: real
  crop_width :: real
  crop_height :: real

text \<open>The pan offset \<^verbatim>\<open>{ x, y }\<close>, in pixels.\<close>

record point =
  pos_x :: real
  pos_y :: real

text \<open>What \<^verbatim>\<open>getBoundingClientRect()\<close> returns, as far as the handlers read it.\<close>

record dom_rect =
  rect_left :: real
  rect_top :: real
  rect_width :: real
  rect_height :: real

record mouse_event =
  clientX :: real
  clientY :: real
  button :: int
  movementX :: real
  movementY :: real

record wheel_event =
  wheel_clientX :: real
  wheel_clientY :: real
  deltaY :: real

text \<open>
  The type of a crop interaction is one of nine string literals. The handlers test it
  with \<^verbatim>\<open>startsWith\<close> and \<^verbatim>\<open>includes\<close>, so the model keeps the strings.
\<close>

datatype crop_type =
  Move | ResizeTL | ResizeT | ResizeTR | ResizeR | ResizeBR | ResizeB | ResizeBL | ResizeL

fun type_name :: "crop_type \<Rightarrow> string" where
  "type_name Move = ''move''"
| "type_name ResizeTL = ''resize-tl''"
| "type_name ResizeT = ''resize-t''"
| "type_name ResizeTR = ''resize-tr''"
| "type_name ResizeR = ''resize-r''"
| "type_name ResizeBR = ''resize-br''"
| "type_name ResizeB = ''resize-b''"
| "type_name ResizeBL = ''resize-bl''"
| "type_name ResizeL = ''resize-l''"

text \<open>\<^verbatim>\<open>s.startsWith(p)\<close>, and \<^verbatim>\<open>s.includes(c)\<close> for a one-character \<open>c\<close>.\<close>

definition startsWith :: "string \<Rightarrow> string \<Rightarrow> bool" where
  "startsWith s p = (take (length p) s = p)"

definition str_includes :: "string \<Rightarrow> char \<Rightarrow> bool" where
  "str_includes s c = (c \<in> set s)"

record CropInteraction =
  ci_type :: crop_type
  startX :: real
  startY :: real
  startCrop :: crop_rect

text \<open>
  The aspect ratio is one of the four entries of \<^verbatim>\<open>aspectRatios\<close>, the only values
  the buttons store.
\<close>

datatype aspect = Free | Ratio_1_1 | Ratio_16_9 | Ratio_4_3

fun aspect_name :: "aspect \<Rightarrow> string" where
  "aspect_name Free = ''Free''"
| "aspect_name Ratio_1_1 = ''1:1''"
| "aspect_name Ratio_16_9 = ''16:9''"
| "aspect_name Ratio_4_3 = ''4:3''"

text \<open>
  Lines 264 to 265: \<^verbatim>\<open>Number(ratioParts[0]) / Number(ratioParts[1])\<close> of the name split
  at the colon. The handler computes it for the three fixed ratios only; where a part
  is missing or is not a number (as for \<^verbatim>\<open>'Free'\<close>) the model gives 0.
\<close>

definition ratio_of :: "aspect \<Rightarrow> real" where
  "ratio_of ar =
     (let ratioParts = split_at (CHR '':'') (aspect_name ar)
      in case (element_at ratioParts 0, element_at ratioParts 1) of
           (Some a, Some b) \<Rightarrow>
             (case (Number_of a, Number_of b) of
                (Some n, Some d) \<Rightarrow> n / d
              | _ \<Rightarrow> 0)
         | _ \<Rightarrow> 0)"

subsection \<open>Image assets and the component state\<close>

text \<open>
  A \<^verbatim>\<open>File\<close> holding an image: its name, its MIME type and the raster it decodes
  to, as rows of pixels (\<open>None\<close> when the bytes do not decode, so that the
  \<^verbatim>\<open>onload\<close> callback of an \<^verbatim>\<open>Image\<close> never fires).
\<close>

type_synonym pixel = nat
type_synonym bitmap = "pixel list list"

record image_file =
  file_name :: string
  file_type :: string
  file_image :: "bitmap option"

text \<open>\<^verbatim>\<open>image.width\<close> and \<^verbatim>\<open>image.height\<close> of a decoded image.\<close>

definition image_width :: "bitmap \<Rightarrow> nat" where
  "image_width b = (case b of [] \<Rightarrow> 0 | row # _ \<Rightarrow> length row)"

definition image_height :: "bitmap \<Rightarrow> nat" where
  "image_height b = length b"

text \<open>\<^verbatim>\<open>EditedImage\<close>: \<^verbatim>\<open>{ imageUrl, text }\<close>.\<close>

record EditedImage =
  imageUrl :: string
  image_text :: string

text \<open>
  The state of \<^verbatim>\<open>ImageEditor\<close>: the \<^verbatim>\<open>imageFile\<close> prop (the working image)
  and the \<^verbatim>\<open>useState\<close> variables, lines 20 to 40. \<^verbatim>\<open>rotatedImageUrl\<close> is a
  preview derived from \<open>imageFile\<close> and \<open>rotation\<close> by an effect and is not modelled.
\<close>

record editor =
  imageFile :: image_file
  prompt :: string
  isLoading :: bool
  error :: "string option"
  editedImage :: "EditedImage option"
  selectedFilter :: string
  rotation :: int
  blur :: int
  sharpen :: int
  scale :: real
  position :: point
  isPanning :: bool
  isCropping :: bool
  crop :: crop_rect
  cropInteraction :: "CropInteraction option"
  aspectRatio :: aspect

definition initial_crop :: crop_rect where
  "initial_crop = \<lparr>crop_x = 0.1, crop_y = 0.1, crop_width = 0.8, crop_height = 0.8\<rparr>"

text \<open>The component as first mounted on a file: the \<^verbatim>\<open>useState\<close> initial values.\<close>

definition initial_editor :: "image_file \<Rightarrow> editor" where
  "initial_editor f =
     \<lparr>imageFile = f, prompt = [], isLoading = False, error = None, editedImage = None,
      selectedFilter = ''None'', rotation = 0, blur = 0, sharpen = 0, scale = 1,
      position = \<lparr>pos_x = 0, pos_y = 0\<rparr>, isPanning = False, isCropping = False,
      crop = initial_crop, cropInteraction = None, aspectRatio = Free\<rparr>"

text \<open>
  \<^verbatim>\<open>onSetNewOriginal(file)\<close> is \<^verbatim>\<open>setOriginalImage\<close> of \<^verbatim>\<open>App\<close>: the component
  is rendered again with the new \<^verbatim>\<open>imageFile\<close>, and the effect on \<^verbatim>\<open>[imageFile]\<close>
  (lines 61 to 75) resets the fields it names and no others.
\<close>

definition onSetNewOriginal :: "image_file \<Rightarrow> editor \<Rightarrow> editor" where
  "onSetNewOriginal f st =
     st\<lparr>imageFile := f, editedImage := None, prompt := [], error := None,
        selectedFilter := ''None'', rotation := 0, blur := 0, sharpen := 0, scale := 1,
        position := \<lparr>pos_x = 0, pos_y = 0\<rparr>, isCropping := False, crop := initial_crop\<rparr>"

section \<open>Rotation and the view transform\<close>

text \<open>
  JavaScript's \<^verbatim>\<open>%\<close> truncates: the result has the sign of the dividend.
\<close>

definition js_rem :: "int \<Rightarrow> int \<Rightarrow> int" where
  "js_rem a b = sgn a * (\<bar>a\<bar> mod \<bar>b\<bar>)"

text \<open>Line 187.\<close>

definition handleRotate :: "int \<Rightarrow> editor \<Rightarrow> editor" where
  "handleRotate degrees st = st\<lparr>rotation := js_rem (rotation st + degrees + 360) 360\<rparr>"

text \<open>
  Lines 189 to 201. The second argument is \<^verbatim>\<open>imageContainerRef.current\<close> as its
  bounding rectangle, \<open>None\<close> when the ref is null. The literal \<^verbatim>\<open>1.1\<close> is the
  binary64 number nearest to 1.1; 0.5 and 5 are binary64 numbers themselves.
\<close>

definition handleWheel :: "wheel_event \<Rightarrow> dom_rect option \<Rightarrow> editor \<Rightarrow> editor" where
  "handleWheel e container st =
     (case container of
        None \<Rightarrow> st
      | Some rect \<Rightarrow>
          let newScale = (if deltaY e < 0 then binary64 (scale st * binary64 1.1)
                          else binary64 (scale st / binary64 1.1));
              clampedScale = min (max 0.5 newScale) 5;
              mouseX = binary64 (wheel_clientX e - rect_left rect);
              mouseY = binary64 (wheel_clientY e - rect_top rect);
              newX = binary64 (mouseX - binary64 (binary64 (mouseX - pos_x (position st))
                                                   * binary64 (clampedScale / scale st)));
              newY = binary64 (mouseY - binary64 (binary64 (mouseY - pos_y (position st))
                                                   * binary64 (clampedScale / scale st)))
          in st\<lparr>scale := clampedScale, position := \<lparr>pos_x = newX, pos_y = newY\<rparr>\<rparr>)"

text \<open>Lines 203 to 216: panning, the zoom buttons and the view reset.\<close>

definition handleMouseDown :: "mouse_event \<Rightarrow> editor \<Rightarrow> editor" where
  "handleMouseDown e st = (if isCropping st \<or> button e \<noteq> 0 then st else st\<lparr>isPanning := True\<rparr>)"

definition handleMouseMove :: "mouse_event \<Rightarrow> editor \<Rightarrow> editor" where
  "handleMouseMove e st =
     (if \<not> isPanning st then st
      else st\<lparr>position := \<lparr>pos_x = binary64 (pos_x (position st) + movementX e),
                              pos_y = binary64 (pos_y (position st) + movementY e)\<rparr>\<rparr>)"

definition handleMouseUp :: "editor \<Rightarrow> editor" where
  "handleMouseUp st = st\<lparr>isPanning := False\<rparr>"

datatype zoom_direction = ZoomIn | ZoomOut

definition handleZoomAction :: "zoom_direction \<Rightarrow> editor \<Rightarrow> editor" where
  "handleZoomAction direction st =
     st\<lparr>scale := min (max 0.5 (if direction = ZoomIn then binary64 (scale st * binary64 1.2)
                                 else binary64 (scale st / binary64 1.2))) 5\<rparr>"

definition handleResetView :: "editor \<Rightarrow> editor" where
  "handleResetView st = st\<lparr>scale := 1, position := \<lparr>pos_x = 0, pos_y = 0\<rparr>\<rparr>"

section \<open>The crop editor\<close>

text \<open>
  Lines 222 to 233. The two rectangles are those of \<^verbatim>\<open>imageRef.current\<close> and
  \<^verbatim>\<open>imageContainerRef.current\<close>, \<open>None\<close> when the ref is null.
\<close>

definition handleCropMouseDown ::
  "mouse_event \<Rightarrow> crop_type \<Rightarrow> dom_rect option \<Rightarrow> dom_rect option \<Rightarrow> editor \<Rightarrow> editor" where
  "handleCropMouseDown e ty imageRect containerRect st =
     (if button e \<noteq> 0 then st
      else case imageRect of
        None \<Rightarrow> st
      | Some ir \<Rightarrow>
         (case containerRect of
            None \<Rightarrow> st
          | Some _ \<Rightarrow>
              let mouseX = (clientX e - rect_left ir) / rect_width ir;
                  mouseY = (clientY e - rect_top ir) / rect_height ir
              in st\<lparr>cropInteraction :=
                      Some \<lparr>ci_type = ty, startX = mouseX, startY = mouseY, startCrop = crop st\<rparr>\<rparr>))"

text \<open>
  Lines 250 to 253: each edge named in the type follows the pointer. The tests are
  \<^verbatim>\<open>type.includes('l')\<close> and so on, on the whole type string.
\<close>

definition resize_edges :: "string \<Rightarrow> crop_rect \<Rightarrow> real \<Rightarrow> real \<Rightarrow> crop_rect" where
  "resize_edges ty sc dx dy =
     (let x = crop_x sc; y = crop_y sc; width = crop_width sc; height = crop_height sc;
          (width, x) = (if str_includes ty (CHR ''l'') then (width - dx, x + dx) else (width, x));
          width = (if str_includes ty (CHR ''r'') then width + dx else width);
          (height, y) = (if str_includes ty (CHR ''t'') then (height - dy, y + dy) else (height, y));
          height = (if str_includes ty (CHR ''b'') then height + dy else height)
      in \<lparr>crop_x = x, crop_y = y, crop_width = width, crop_height = height\<rparr>)"

text \<open>Lines 256 to 257, under the comment \<^verbatim>\<open>// Prevent inversion\<close>.\<close>

definition prevent_inversion :: "string \<Rightarrow> crop_rect \<Rightarrow> crop_rect \<Rightarrow> crop_rect" where
  "prevent_inversion ty sc c =
     (let x = crop_x c; y = crop_y c; width = crop_width c; height = crop_height c;
          (width, x) =
            (if width < 0.05
             then (0.05, if str_includes ty (CHR ''l'') then crop_x sc + crop_width sc - 0.05
                         else crop_x sc)
             else (width, x));
          (height, y) =
            (if height < 0.05
             then (0.05, if str_includes ty (CHR ''t'') then crop_y sc + crop_height sc - 0.05
                         else crop_y sc)
             else (height, y))
      in \<lparr>crop_x = x, crop_y = y, crop_width = width, crop_height = height\<rparr>)"

text \<open>Lines 262 to 274, under the comment \<^verbatim>\<open>// Enforce aspect ratio\<close>.\<close>

definition enforce_aspect :: "aspect \<Rightarrow> string \<Rightarrow> crop_rect \<Rightarrow> crop_rect \<Rightarrow> crop_rect" where
  "enforce_aspect ar ty sc c =
     (if aspect_name ar \<noteq> ''Free'' then
        let ratio = ratio_of ar;
            c1 = (if str_includes ty (CHR ''l'') \<or> str_includes ty (CHR ''r'')
                  then c\<lparr>crop_height := crop_width c / ratio\<rparr>
                  else c\<lparr>crop_width := crop_height c * ratio\<rparr>);
            c2 = (if str_includes ty (CHR ''t'')
                  then c1\<lparr>crop_y := crop_y sc + crop_height sc - crop_height c1\<rparr> else c1);
            c3 = (if str_includes ty (CHR ''l'')
                  then c2\<lparr>crop_x := crop_x sc + crop_width sc - crop_width c2\<rparr> else c2)
        in c3
      else c)"

text \<open>Lines 282 to 285, under the comment \<^verbatim>\<open>// Boundary checks\<close>.\<close>

definition boundary_checks :: "crop_rect \<Rightarrow> crop_rect" where
  "boundary_checks c =
     (let c1 = c\<lparr>crop_x := max 0 (min (crop_x c) (1 - crop_width c))\<rparr>;
          c2 = c1\<lparr>crop_y := max 0 (min (crop_y c1) (1 - crop_height c1))\<rparr>;
          c3 = c2\<lparr>crop_width := min (crop_width c2) (1 - crop_x c2)\<rparr>;
          c4 = c3\<lparr>crop_height := min (crop_height c3) (1 - crop_y c3)\<rparr>
      in c4)"

text \<open>
  The rectangle a pointer move proposes, before the boundary checks: lines 243 to 279.
  \<open>dx\<close> and \<open>dy\<close> are the pointer's displacement since the mouse went down, as
  fractions of the image's displayed size.
\<close>

definition proposed_crop :: "aspect \<Rightarrow> CropInteraction \<Rightarrow> real \<Rightarrow> real \<Rightarrow> crop_rect" where
  "proposed_crop ar ci dx dy =
     (let ty = type_name (ci_type ci); sc = startCrop ci
      in if startsWith ty ''resize-''
         then enforce_aspect ar ty sc (prevent_inversion ty sc (resize_edges ty sc dx dy))
         else if ty = ''move''
         then sc\<lparr>crop_x := crop_x sc + dx, crop_y := crop_y sc + dy\<rparr>
         else sc)"

text \<open>Lines 235 to 288. The rectangle is that of \<^verbatim>\<open>imageRef.current\<close>.\<close>

definition handleCropMouseMove :: "mouse_event \<Rightarrow> dom_rect option \<Rightarrow> editor \<Rightarrow> editor" where
  "handleCropMouseMove e imageRect st =
     (case cropInteraction st of
        None \<Rightarrow> st
      | Some ci \<Rightarrow>
         (case imageRect of
            None \<Rightarrow> st
          | Some ir \<Rightarrow>
              let dx = (clientX e - rect_left ir) / rect_width ir - startX ci;
                  dy = (clientY e - rect_top ir) / rect_height ir - startY ci
              in st\<lparr>crop := boundary_checks (proposed_crop (aspectRatio st) ci dx dy)\<rparr>))"

text \<open>Line 290, and lines 321 to 324.\<close>

definition handleCropMouseUp :: "editor \<Rightarrow> editor" where
  "handleCropMouseUp st = st\<lparr>cropInteraction := None\<rparr>"

definition handleCancelCrop :: "editor \<Rightarrow> editor" where
  "handleCancelCrop st = st\<lparr>isCropping := False, crop := initial_crop\<rparr>"

text \<open>The aspect-ratio buttons call \<^verbatim>\<open>setAspectRatio(ar)\<close> (line 396).\<close>

definition setAspectRatio :: "aspect \<Rightarrow> editor \<Rightarrow> editor" where
  "setAspectRatio ar st = st\<lparr>aspectRatio := ar\<rparr>"

text \<open>
  A crop session as the user drives it: the events that reach the handlers above, each
  with the rectangles the browser reports at that moment.
\<close>

datatype crop_event =
  CropMouseDown mouse_event crop_type "dom_rect option" "dom_rect option"
| CropMouseMove mouse_event "dom_rect option"
| CropMouseUp
| SelectAspectRatio aspect

fun crop_step :: "editor \<Rightarrow> crop_event \<Rightarrow> editor" where
  "crop_step st (CropMouseDown e ty ir cr) = handleCropMouseDown e ty ir cr st"
| "crop_step st (CropMouseMove e ir) = handleCropMouseMove e ir st"
| "crop_step st CropMouseUp = handleCropMouseUp st"
| "crop_step st (SelectAspectRatio ar) = setAspectRatio ar st"

definition crop_session :: "editor \<Rightarrow> crop_event list \<Rightarrow> editor" where
  "crop_session st evs = foldl crop_step st evs"

subsection \<open>The crop handlers in binary64\<close>

text \<open>
  The same handlers with every arithmetic operation rounded. The literals
  \<^verbatim>\<open>0.1\<close>, \<^verbatim>\<open>0.8\<close> and \<^verbatim>\<open>0.05\<close> are the binary64 numbers nearest to
  them, and the ratio is the rounded quotient of its two parts.
\<close>

definition initial_crop64 :: crop_rect where
  "initial_crop64 = \<lparr>crop_x = binary64 0.1, crop_y = binary64 0.1,
                      crop_width = binary64 0.8, crop_height = binary64 0.8\<rparr>"

definition initial_editor64 :: "image_file \<Rightarrow> editor" where
  "initial_editor64 f = (initial_editor f)\<lparr>crop := initial_crop64\<rparr>"

definition handleCropMouseDown64 ::
  "mouse_event \<Rightarrow> crop_type \<Rightarrow> dom_rect option \<Rightarrow> dom_rect option \<Rightarrow> editor \<Rightarrow> editor" where
  "handleCropMouseDown64 e ty imageRect containerRect st =
     (if button e \<noteq> 0 then st
      else case imageRect of
        None \<Rightarrow> st
      | Some ir \<Rightarrow>
         (case containerRect of
            None \<Rightarrow> st
          | Some _ \<Rightarrow>
              let mouseX = binary64 (binary64 (clientX e - rect_left ir) / rect_width ir);
                  mouseY = binary64 (binary64 (clientY e - rect_top ir) / rect_height ir)
              in st\<lparr>cropInteraction :=
                      Some \<lparr>ci_type = ty, startX = mouseX, startY = mouseY, startCrop = crop st\<rparr>\<rparr>))"

definition resize_edges64 :: "string \<Rightarrow> crop_rect \<Rightarrow> real \<Rightarrow> real \<Rightarrow> crop_rect" where
  "resize_edges64 ty sc dx dy =
     (let x = crop_x sc; y = crop_y sc; width = crop_width sc; height = crop_height sc;
          (width, x) = (if str_includes ty (CHR ''l'')
                        then (binary64 (width - dx), binary64 (x + dx)) else (width, x));
          width = (if str_includes ty (CHR ''r'') then binary64 (width + dx) else width);
          (height, y) = (if str_includes ty (CHR ''t'')
                         then (binary64 (height - dy), binary64 (y + dy)) else (height, y));
          height = (if str_includes ty (CHR ''b'') then binary64 (height + dy) else height)
      in \<lparr>crop_x = x, crop_y = y, crop_width = width, crop_height = height\<rparr>)"

definition prevent_inversion64 :: "string \<Rightarrow> crop_rect \<Rightarrow> crop_rect \<Rightarrow> crop_rect" where
  "prevent_inversion64 ty sc c =
     (let x = crop_x c; y = crop_y c; width = crop_width c; height = crop_height c;
          (width, x) =
            (if width < binary64 0.05
             then (binary64 0.05,
                   if str_includes ty (CHR ''l'')
                   then binary64 (binary64 (crop_x sc + crop_width sc) - binary64 0.05)
                   else crop_x sc)
             else (width, x));
          (height, y) =
            (if height < binary64 0.05
             then (binary64 0.05,
                   if str_includes ty (CHR ''t'')
                   then binary64 (binary64 (crop_y sc + crop_height sc) - binary64 0.05)
                   else crop_y sc)
             else (height, y))
      in \<lparr>crop_x = x, crop_y = y, crop_width = width, crop_height = height\<rparr>)"

definition enforce_aspect64 :: "aspect \<Rightarrow> string \<Rightarrow> crop_rect \<Rightarrow> crop_rect \<Rightarrow> crop_rect" where
  "enforce_aspect64 ar ty sc c =
     (if aspect_name ar \<noteq> ''Free'' then
        let ratio = binary64 (ratio_of ar);
            c1 = (if str_includes ty (CHR ''l'') \<or> str_includes ty (CHR ''r'')
                  then c\<lparr>crop_height := binary64 (crop_width c / ratio)\<rparr>
                  else c\<lparr>crop_width := binary64 (crop_height c * ratio)\<rparr>);
            c2 = (if str_includes ty (CHR ''t'')
                  then c1\<lparr>crop_y := binary64 (binary64 (crop_y sc + crop_height sc) - crop_height c1)\<rparr>
                  else c1);
            c3 = (if str_includes ty (CHR ''l'')
                  then c2\<lparr>crop_x := binary64 (binary64 (crop_x sc + crop_width sc) - crop_width c2)\<rparr>
                  else c2)
        in c3
      else c)"

definition boundary_checks64 :: "crop_rect \<Rightarrow> crop_rect" where
  "boundary_checks64 c =
     (let c1 = c\<lparr>crop_x := max 0 (min (crop_x c) (binary64 (1 - crop_width c)))\<rparr>;
          c2 = c1\<lparr>crop_y := max 0 (min (crop_y c1) (binary64 (1 - crop_height c1)))\<rparr>;
          c3 = c2\<lparr>crop_width := min (crop_width c2) (binary64 (1 - crop_x c2))\<rparr>;
          c4 = c3\<lparr>crop_height := min (crop_height c3) (binary64 (1 - crop_y c3))\<rparr>
      in c4)"

definition proposed_crop64 :: "aspect \<Rightarrow> CropInteraction \<Rightarrow> real \<Rightarrow> real \<Rightarrow> crop_rect" where
  "proposed_crop64 ar ci dx dy =
     (let ty = type_name (ci_type ci); sc = startCrop ci
      in if startsWith ty ''resize-''
         then enforce_aspect64 ar ty sc (prevent_inversion64 ty sc (resize_edges64 ty sc dx dy))
         else if ty = ''move''
         then sc\<lparr>crop_x := binary64 (crop_x sc + dx), crop_y := binary64 (crop_y sc + dy)\<rparr>
         else sc)"

definition handleCropMouseMove64 :: "mouse_event \<Rightarrow> dom_rect option \<Rightarrow> editor \<Rightarrow> editor" where
  "handleCropMouseMove64 e imageRect st =
     (case cropInteraction st of
        None \<Rightarrow> st
      | Some ci \<Rightarrow>
         (case imageRect of
            None \<Rightarrow> st
          | Some ir \<Rightarrow>
              let dx = binary64 (binary64 (binary64 (clientX e - rect_left ir) / rect_width ir)
                                 - startX ci);
                  dy = binary64 (binary64 (binary64 (clientY e - rect_top ir) / rect_height ir)
                                 - startY ci)
              in st\<lparr>crop := boundary_checks64 (proposed_crop64 (aspectRatio st) ci dx dy)\<rparr>))"

fun crop_step64 :: "editor \<Rightarrow> crop_event \<Rightarrow> editor" where
  "crop_step64 st (CropMouseDown e ty ir cr) = handleCropMouseDown64 e ty ir cr st"
| "crop_step64 st (CropMouseMove e ir) = handleCropMouseMove64 e ir st"
| "crop_step64 st CropMouseUp = handleCropMouseUp st"
| "crop_step64 st (SelectAspectRatio ar) = setAspectRatio ar st"

definition crop_session64 :: "editor \<Rightarrow> crop_event list \<Rightarrow> editor" where
  "crop_session64 st evs = foldl crop_step64 st evs"

section \<open>The browser and the image service\<close>

text \<open>
  A value a JavaScript \<^verbatim>\<open>throw\<close> or a rejected promise carries: an \<^verbatim>\<open>Error\<close>
  with its message, or anything else (the \<^verbatim>\<open>ProgressEvent\<close> of a failed
  \<^verbatim>\<open>FileReader\<close>, for one).
\<close>

datatype thrown = Error string | NonError

text \<open>
  What a handler asks of a canvas: its size and the calls on its 2D context, in order.
\<close>

datatype canvas_op =
  SetFilter string
| Translate real real
| Rotate real
| DrawImage bitmap real real
| DrawImageRect bitmap real real real real real real real real

record canvas =
  canvas_width :: nat
  canvas_height :: nat
  canvas_ops :: "canvas_op list"

text \<open>
  Assigning a number to \<^verbatim>\<open>canvas.width\<close> converts it to an unsigned integer by
  truncation (for the values \<open>0 \<le> v < 2^31\<close> that a crop of an image produces).
\<close>

definition canvas_dimension :: "real \<Rightarrow> nat" where
  "canvas_dimension v = nat \<lfloor>v\<rfloor>"

text \<open>Parts and candidates of a \<^verbatim>\<open>generateContent\<close> response, as the adapter reads them.\<close>

record inline_data =
  inline_mimeType :: string
  inline_bytes :: string

record part =
  inlineData :: "inline_data option"
  part_text :: "string option"

record gen_response =
  candidates :: "part list list"

text \<open>The request of lines 30 to 48 (model name, image part, text part).\<close>

record gen_request =
  req_apiKey :: string
  req_model :: string
  req_data :: "string option"
  req_mimeType :: string
  req_text :: string

text \<open>
  Everything the code asks of its surroundings, as parameters:
  \<^item> \<open>getContext2d\<close>: whether \<^verbatim>\<open>canvas.getContext('2d')\<close> gives a context;
  \<^item> \<open>toBlob\<close>: the raster the browser encodes from a canvas, \<open>None\<close> when
    \<^verbatim>\<open>toBlob\<close> calls back with null;
  \<^item> \<open>API_KEY\<close>: \<^verbatim>\<open>process.env.API_KEY\<close>, \<open>None\<close> when undefined;
  \<^item> \<open>readAsDataURL\<close>: the data URL a \<^verbatim>\<open>FileReader\<close> produces, \<open>None\<close> when it
    reports an error;
  \<^item> \<open>generateContent\<close>: the answer of the remote model, or what the SDK throws.
\<close>

record env =
  getContext2d :: bool
  toBlob :: "canvas \<Rightarrow> bitmap option"
  API_KEY :: "string option"
  readAsDataURL :: "image_file \<Rightarrow> string option"
  generateContent :: "gen_request \<Rightarrow> thrown + gen_response"

text \<open>
  What a handler does that is visible outside the component state: the default action
  of the form event prevented, the adapter called, a file read, a request sent.
\<close>

datatype effect =
  PreventDefault
| AdapterCall image_file string
| FileRead image_file
| Request gen_request

section \<open>The submission pipeline\<close>

text \<open>The filter presets, lines 42 to 48.\<close>

record filter_preset =
  preset_name :: string
  preset_style :: string

definition filters :: "filter_preset list" where
  "filters =
     [\<lparr>preset_name = ''None'', preset_style = ''none''\<rparr>,
      \<lparr>preset_name = ''Grayscale'', preset_style = ''grayscale(100%)''\<rparr>,
      \<lparr>preset_name = ''Sepia'', preset_style = ''sepia(100%)''\<rparr>,
      \<lparr>preset_name = ''Vintage'',
       preset_style = ''sepia(60%) contrast(75%) brightness(120%) saturate(120%)''\<rparr>,
      \<lparr>preset_name = ''Invert'', preset_style = ''invert(100%)''\<rparr>]"

text \<open>Lines 123 to 125: the preset, the blur and the sharpen (a contrast boost), joined.\<close>

definition full_filter :: "string \<Rightarrow> int \<Rightarrow> int \<Rightarrow> string" where
  "full_filter filterStyle blurValue sharpenValue =
     (let blurFilter = (if blurValue > 0 then ''blur('' @ number_text blurValue @ ''px)'' else []);
          sharpenFilter = (if sharpenValue > 0
                           then ''contrast('' @ number_text (100 + sharpenValue) @ ''%)'' else [])
      in join_space (filter (\<lambda>f. f \<noteq> [] \<and> f \<noteq> ''none'') [filterStyle, blurFilter, sharpenFilter]))"

text \<open>\<^verbatim>\<open>Math.PI\<close>: the binary64 value next to \<open>\<pi>\<close>, 3.141592653589793.\<close>

definition Math_PI :: real where
  "Math_PI = 884279719003555 / 2 ^ 48"

text \<open>
  The canvas of lines 113 to 130, for a decoded image \<open>img\<close>. The angle in radians is
  a product and a quotient in binary64; halving a width or a height is exact.
\<close>

definition transformed_canvas :: "bitmap \<Rightarrow> string \<Rightarrow> int \<Rightarrow> int \<Rightarrow> int \<Rightarrow> canvas" where
  "transformed_canvas img filterStyle rotationAngle blurValue sharpenValue =
     (let radians = binary64 (binary64 (real_of_int rotationAngle * Math_PI) / 180);
          isSideways = (rotationAngle = 90 \<or> rotationAngle = 270);
          w = (if isSideways then image_height img else image_width img);
          h = (if isSideways then image_width img else image_height img)
      in \<lparr>canvas_width = w, canvas_height = h,
          canvas_ops =
            [SetFilter (full_filter filterStyle blurValue sharpenValue),
             Translate (real w / 2) (real h / 2),
             Rotate radians,
             DrawImage img (- real (image_width img) / 2) (- real (image_height img) / 2)]\<rparr>)"

text \<open>
  Lines 108 to 141. The result is that of the promise: \<open>None\<close> when it never settles
  (the image does not decode and nothing handles \<^verbatim>\<open>onerror\<close>), \<open>Inl\<close> when it is
  rejected, \<open>Inr\<close> the new file.
\<close>

definition applyTransformationsAndGetFile ::
  "env \<Rightarrow> image_file \<Rightarrow> string \<Rightarrow> int \<Rightarrow> int \<Rightarrow> int \<Rightarrow> (thrown + image_file) option" where
  "applyTransformationsAndGetFile ev f filterStyle rotationAngle blurValue sharpenValue =
     (case file_image f of
        None \<Rightarrow> None
      | Some img \<Rightarrow>
          if \<not> getContext2d ev then Some (Inl (Error ''Could not get canvas context''))
          else case toBlob ev (transformed_canvas img filterStyle rotationAngle blurValue sharpenValue) of
                 None \<Rightarrow> Some (Inl (Error ''Canvas to Blob conversion failed''))
               | Some blob \<Rightarrow>
                   Some (Inr \<lparr>file_name = ''transformed-'' @ file_name f,
                              file_type = ''image/png'', file_image = Some blob\<rparr>))"

text \<open>
  \<^verbatim>\<open>fileToBase64\<close>, lines 5 to 16: the text after the first comma of the data URL
  (\<open>None\<close> is \<^verbatim>\<open>undefined\<close>); the promise is rejected with the reader's event
  when the read fails.
\<close>

definition fileToBase64 :: "env \<Rightarrow> image_file \<Rightarrow> thrown + string option" where
  "fileToBase64 ev f =
     (case readAsDataURL ev f of
        None \<Rightarrow> Inl NonError
      | Some result \<Rightarrow> Inr (element_at (split_at (CHR '','') result) 1))"

text \<open>
  Lines 50 to 62: the loop over the parts of the first candidate. The last inline image
  gives the local \<^verbatim>\<open>imageUrl\<close> (here \<open>url\<close>), the last non-empty text among the other parts gives \<open>text\<close>.
\<close>

fun scan_parts :: "part list \<Rightarrow> string \<times> string \<Rightarrow> string \<times> string" where
  "scan_parts [] acc = acc"
| "scan_parts (p # ps) (url, txt) =
     (case inlineData p of
        Some d \<Rightarrow>
          scan_parts ps (''data:'' @ inline_mimeType d @ '';base64,'' @ inline_bytes d, txt)
      | None \<Rightarrow>
          (case part_text p of
             None \<Rightarrow> scan_parts ps (url, txt)
           | Some t \<Rightarrow> if t \<noteq> [] then scan_parts ps (url, t)
                       else scan_parts ps (url, txt)))"

text \<open>Line 71: the message of what was caught.\<close>

definition service_message :: "thrown \<Rightarrow> string" where
  "service_message err = (case err of Error m \<Rightarrow> m | NonError \<Rightarrow> ''An unknown error occurred.'')"

text \<open>
  \<^verbatim>\<open>editImageWithGemini\<close>, lines 18 to 74: the value the promise settles with, and
  what was done on the way. A missing credential is \<^verbatim>\<open>!process.env.API_KEY\<close>:
  undefined or the empty string.
\<close>

definition editImageWithGemini ::
  "env \<Rightarrow> image_file \<Rightarrow> string \<Rightarrow> (thrown + EditedImage) \<times> effect list" where
  "editImageWithGemini ev f prompt_text =
     (case API_KEY ev of
        None \<Rightarrow> (Inl (Error ''API_KEY environment variable is not set.''), [])
      | Some key \<Rightarrow>
          if key = [] then (Inl (Error ''API_KEY environment variable is not set.''), [])
          else
            (case fileToBase64 ev f of
               Inl err \<Rightarrow> (Inl err, [FileRead f])
             | Inr base64ImageData \<Rightarrow>
                 let request = \<lparr>req_apiKey = key, req_model = ''gemini-2.5-flash-image-preview'',
                                req_data = base64ImageData, req_mimeType = file_type f,
                                req_text = prompt_text\<rparr>;
                     trace = [FileRead f, Request request]
                 in (case generateContent ev request of
                       Inl err \<Rightarrow>
                         (Inl (Error (''Failed to edit image: '' @ service_message err)), trace)
                     | Inr response \<Rightarrow>
                         let (url, txt) =
                               (case candidates response of
                                  [] \<Rightarrow> ([], ''No text response from model.'')
                                | c # _ \<Rightarrow> scan_parts c ([], ''No text response from model.''))
                         in if url = []
                            then (Inl (Error (''Failed to edit image: '' @
                                    ''API did not return an image. The model may have refused the request.'')),
                                  trace)
                            else (Inr \<lparr>imageUrl = url, image_text = txt\<rparr>, trace))))"

text \<open>
  Lines 152 to 158: the file that goes to the adapter, as the outcome of the awaited
  promise (\<open>None\<close>: never settled).
\<close>

definition image_to_send :: "env \<Rightarrow> editor \<Rightarrow> (thrown + image_file) option" where
  "image_to_send ev st =
     (let activeFilter = find (\<lambda>f. preset_name f = selectedFilter st) filters;
          filterStyle = (case activeFilter of Some f \<Rightarrow> preset_style f | None \<Rightarrow> ''none'')
      in if filterStyle \<noteq> ''none'' \<or> rotation st \<noteq> 0 \<or> blur st > 0 \<or> sharpen st > 0
         then applyTransformationsAndGetFile ev (imageFile st) filterStyle
                (rotation st) (blur st) (sharpen st)
         else Some (Inr (imageFile st)))"

text \<open>
  The body of the \<^verbatim>\<open>try\<close>, lines 152 to 161: what it ends with (\<open>None\<close>: it never
  ends, \<open>Inl\<close>: it throws, \<open>Inr\<close>: the result for \<^verbatim>\<open>setEditedImage\<close>) and its effects.
\<close>

definition try_submission :: "env \<Rightarrow> editor \<Rightarrow> (thrown + EditedImage) option \<times> effect list" where
  "try_submission ev st =
     (case image_to_send ev st of
        None \<Rightarrow> (None, [])
      | Some (Inl err) \<Rightarrow> (Some (Inl err), [])
      | Some (Inr imageToSend) \<Rightarrow>
          (case editImageWithGemini ev imageToSend (prompt st) of
             (r, trace) \<Rightarrow> (Some r, AdapterCall imageToSend (prompt st) # trace)))"

text \<open>Line 162: the message \<^verbatim>\<open>setError\<close> receives.\<close>

definition catch_message :: "thrown \<Rightarrow> string" where
  "catch_message err = (case err of Error m \<Rightarrow> m | NonError \<Rightarrow> ''An unexpected error occurred.'')"

text \<open>
  \<^verbatim>\<open>handleSubmit\<close>, lines 143 to 164. A run either completes, or stays suspended
  at an \<^verbatim>\<open>await\<close> that never resumes; either way it leaves a state and the effects
  so far.
\<close>

datatype submit_run = Completed editor "effect list" | Suspended editor "effect list"

fun run_state :: "submit_run \<Rightarrow> editor" where
  "run_state (Completed st _) = st"
| "run_state (Suspended st _) = st"

fun run_effects :: "submit_run \<Rightarrow> effect list" where
  "run_effects (Completed _ tr) = tr"
| "run_effects (Suspended _ tr) = tr"

fun completed :: "submit_run \<Rightarrow> bool" where
  "completed (Completed _ _) = True"
| "completed (Suspended _ _) = False"

definition handleSubmit :: "env \<Rightarrow> editor \<Rightarrow> submit_run" where
  "handleSubmit ev st =
     (if trim (prompt st) = [] \<or> isLoading st then Completed st [PreventDefault]
      else
        let st1 = st\<lparr>isLoading := True, error := None, editedImage := None\<rparr>
        in case try_submission ev st of
             (None, trace) \<Rightarrow> Suspended st1 (PreventDefault # trace)
           | (Some (Inr result), trace) \<Rightarrow>
               Completed (st1\<lparr>editedImage := Some result, isLoading := False\<rparr>)
                 (PreventDefault # trace)
           | (Some (Inl err), trace) \<Rightarrow>
               Completed (st1\<lparr>error := Some (catch_message err), isLoading := False\<rparr>)
                 (PreventDefault # trace))"

text \<open>An effect that leaves the browser: a file read for, or a request to, the service.\<close>

fun is_outbound :: "effect \<Rightarrow> bool" where
  "is_outbound PreventDefault = False"
| "is_outbound (AdapterCall _ _) = True"
| "is_outbound (FileRead _) = True"
| "is_outbound (Request _) = True"

text \<open>A request that reaches the remote service.\<close>

fun is_request :: "effect \<Rightarrow> bool" where
  "is_request (Request _) = True"
| "is_request _ = False"

section \<open>Applying the crop\<close>

text \<open>The rows and columns of a raster from \<open>(x, y)\<close>, \<open>w\<close> wide and \<open>h\<close> high.\<close>

definition region :: "bitmap \<Rightarrow> nat \<Rightarrow> nat \<Rightarrow> nat \<Rightarrow> nat \<Rightarrow> bitmap" where
  "region img x y w h = map (\<lambda>row. take w (drop x row)) (take h (drop y img))"

text \<open>The canvas of lines 296 to 308.\<close>

definition crop_canvas :: "bitmap \<Rightarrow> crop_rect \<Rightarrow> canvas" where
  "crop_canvas img c =
     (let cropX = crop_x c * real (image_width img);
          cropY = crop_y c * real (image_height img);
          cropWidth = crop_width c * real (image_width img);
          cropHeight = crop_height c * real (image_height img)
      in \<lparr>canvas_width = canvas_dimension cropWidth,
          canvas_height = canvas_dimension cropHeight,
          canvas_ops = [DrawImageRect img cropX cropY cropWidth cropHeight 0 0 cropWidth cropHeight]\<rparr>)"

text \<open>
  \<^verbatim>\<open>handleApplyCrop\<close>, lines 292 to 319, with its two callbacks run. Nothing happens
  when the image does not decode, when there is no context or when the blob is null.
\<close>

definition handleApplyCrop :: "env \<Rightarrow> editor \<Rightarrow> editor" where
  "handleApplyCrop ev st =
     (case file_image (imageFile st) of
        None \<Rightarrow> st
      | Some img \<Rightarrow>
          if \<not> getContext2d ev then st
          else case toBlob ev (crop_canvas img (crop st)) of
                 None \<Rightarrow> st
               | Some blob \<Rightarrow>
                   let newFile = \<lparr>file_name = ''cropped-'' @ file_name (imageFile st),
                                  file_type = ''image/png'', file_image = Some blob\<rparr>
                   in (onSetNewOriginal newFile st)\<lparr>isCropping := False\<rparr>)"

text \<open>
  What the canvas API promises for the one drawing \<open>crop_canvas\<close> makes when its
  numbers are whole: a source rectangle inside the image, drawn unscaled at the origin of
  a canvas of the same size, comes out of the lossless PNG encoder as that region.
\<close>

definition copies_aligned_regions :: "env \<Rightarrow> bool" where
  "copies_aligned_regions ev =
     (\<forall>img x y w h.
        x + w \<le> image_width img \<and> y + h \<le> image_height img \<longrightarrow>
        toBlob ev \<lparr>canvas_width = w, canvas_height = h,
                   canvas_ops = [DrawImageRect img (real x) (real y) (real w) (real h)
                                   0 0 (real w) (real h)]\<rparr>
        = Some (region img x y w h))"

text \<open>A raster is rectangular: every row is as long as the first.\<close>

definition rectangular :: "bitmap \<Rightarrow> bool" where
  "rectangular img = (\<forall>row \<in> set img. length row = image_width img)"

section \<open>Predicates on crop rectangles and crop sessions\<close>

text \<open>The rectangle lies inside the image: the four boundary conditions.\<close>

definition within_image :: "crop_rect \<Rightarrow> bool" where
  "within_image c =
     (0 \<le> crop_x c \<and> 0 \<le> crop_y c \<and> crop_x c + crop_width c \<le> 1 \<and> crop_y c + crop_height c \<le> 1)"

text \<open>The width is at least 0.05 and the height at least \<open>hmin\<close>.\<close>

definition min_size :: "real \<Rightarrow> crop_rect \<Rightarrow> bool" where
  "min_size hmin c = (0.05 \<le> crop_width c \<and> hmin \<le> crop_height c)"

text \<open>
  The crop state of the editor is in order: the rectangle lies inside the image and has
  the minimum size, and so has the snapshot of a running interaction.
\<close>

definition crop_state_ok :: "real \<Rightarrow> editor \<Rightarrow> bool" where
  "crop_state_ok hmin st =
     (within_image (crop st) \<and> min_size hmin (crop st) \<and>
      (case cropInteraction st of None \<Rightarrow> True | Some ci \<Rightarrow> min_size hmin (startCrop ci)))"

text \<open>An aspect ratio under which a width of 0.05 still gives a height of \<open>hmin\<close>.\<close>

definition aspect_fits :: "real \<Rightarrow> aspect \<Rightarrow> bool" where
  "aspect_fits hmin ar = (ar = Free \<or> hmin \<le> 0.05 / ratio_of ar)"

text \<open>The image is displayed with a positive size whenever an event reads its rectangle.\<close>

definition positive_rect :: "dom_rect option \<Rightarrow> bool" where
  "positive_rect r = (case r of None \<Rightarrow> True | Some ir \<Rightarrow> 0 < rect_width ir \<and> 0 < rect_height ir)"

fun rects_positive :: "crop_event \<Rightarrow> bool" where
  "rects_positive (CropMouseDown e ty ir cr) = positive_rect ir"
| "rects_positive (CropMouseMove e ir) = positive_rect ir"
| "rects_positive CropMouseUp = True"
| "rects_positive (SelectAspectRatio ar) = True"

text \<open>The aspect ratios an event selects, if any, all satisfy \<open>P\<close>.\<close>

fun selects_only :: "(aspect \<Rightarrow> bool) \<Rightarrow> crop_event \<Rightarrow> bool" where
  "selects_only P (SelectAspectRatio ar) = P ar"
| "selects_only P _ = True"

text \<open>Free and 1:1, the two settings under which width and height are interchangeable.\<close>

definition free_or_square :: "aspect \<Rightarrow> bool" where
  "free_or_square ar = (ar = Free \<or> ar = Ratio_1_1)"

section \<open>Sample inputs\<close>

text \<open>Concrete values on which the theorems below are exercised.\<close>

definition sample_file :: image_file where
  "sample_file = \<lparr>file_name = ''photo.png'', file_type = ''image/png'', file_image = None\<rparr>"

definition square_rect :: dom_rect where
  "square_rect = \<lparr>rect_left = 10, rect_top = 20, rect_width = 100, rect_height = 100\<rparr>"

definition pointer_at :: "real \<Rightarrow> real \<Rightarrow> mouse_event" where
  "pointer_at px py = \<lparr>clientX = px, clientY = py, button = 0, movementX = 0, movementY = 0\<rparr>"

text \<open>
  A browser and a service that work: the canvas copies the source rectangle it is asked
  to draw (and gives a blank raster of the canvas size for any other drawing), the
  credential is set, the file reads, and the model answers with an image and a text.
\<close>

definition sample_toBlob :: "canvas \<Rightarrow> bitmap option" where
  "sample_toBlob cv =
     (case canvas_ops cv of
        [DrawImageRect img sx sy sw sh dx dy dw dh] \<Rightarrow>
          Some (region img (nat \<lfloor>sx\<rfloor>) (nat \<lfloor>sy\<rfloor>) (canvas_width cv) (canvas_height cv))
      | _ \<Rightarrow> Some (replicate (canvas_height cv) (replicate (canvas_width cv) 0)))"

definition sample_response :: gen_response where
  "sample_response =
     \<lparr>candidates =
        [[\<lparr>inlineData = Some \<lparr>inline_mimeType = ''image/png'', inline_bytes = ''QUJD''\<rparr>,
           part_text = None\<rparr>,
          \<lparr>inlineData = None, part_text = Some ''Here is the hat.''\<rparr>]]\<rparr>"

definition sample_env :: env where
  "sample_env =
     \<lparr>getContext2d = True, toBlob = sample_toBlob, API_KEY = Some ''secret'',
      readAsDataURL = (\<lambda>f. Some ''data:image/png;base64,iVBORw=='' ),
      generateContent = (\<lambda>r. Inr sample_response)\<rparr>"

text \<open>A two by two image, and an editor on it with a prior result on display.\<close>

definition small_file :: image_file where
  "small_file = \<lparr>file_name = ''photo.png'', file_type = ''image/png'',
                  file_image = Some [[1, 2], [3, 4]]\<rparr>"

definition prior_result :: EditedImage where
  "prior_result = \<lparr>imageUrl = ''data:image/png;base64,AAAA'', image_text = ''An earlier edit.''\<rparr>"

definition hat_editor :: editor where
  "hat_editor = (initial_editor small_file)\<lparr>prompt := ''Add a hat'', editedImage := Some prior_result\<rparr>"

text \<open>
  A 1000 by 800 image whose pixel in column \<open>x\<close> of row \<open>y\<close> is \<open>x + 1000 * y\<close>, and an
  editor in crop mode on it with the rectangle of the scenario.
\<close>

definition gradient_image :: bitmap where
  "gradient_image = map (\<lambda>y. map (\<lambda>x. x + 1000 * y) [0..<1000]) [0..<800]"

definition gradient_file :: image_file where
  "gradient_file = \<lparr>file_name = ''wide.png'', file_type = ''image/png'',
                     file_image = Some gradient_image\<rparr>"

definition scenario_crop :: crop_rect where
  "scenario_crop = \<lparr>crop_x = 0.25, crop_y = 0.25, crop_width = 0.5, crop_height = 0.5\<rparr>"

definition cropping_editor :: editor where
  "cropping_editor = (initial_editor gradient_file)\<lparr>isCropping := True, crop := scenario_crop\<rparr>"

text \<open>A wheel-up with the cursor 77 pixels right of and 40 below the corner of \<open>square_rect\<close>.\<close>

definition wheel_up_at_87_60 :: wheel_event where
  "wheel_up_at_87_60 = \<lparr>wheel_clientX = 87, wheel_clientY = 60, deltaY = - 100\<rparr>"

text \<open>
  The editor after one press of the zoom-out button, and a wheel-up with the cursor 12
  pixels right of and 40 below the corner of \<open>square_rect\<close>.
\<close>

definition zoomed_out_editor :: editor where
  "zoomed_out_editor = handleZoomAction ZoomOut (initial_editor sample_file)"

definition wheel_up_at_22_60 :: wheel_event where
  "wheel_up_at_22_60 = \<lparr>wheel_clientX = 22, wheel_clientY = 60, deltaY = - 100\<rparr>"

text \<open>
  An image displayed 640 by 480 at the origin, and a crop session on it: the right handle
  is dragged from 576 to 272, which narrows the rectangle to a width near 0.325, and the
  body is then grabbed at 128.
\<close>

definition photo_rect :: dom_rect where
  "photo_rect = \<lparr>rect_left = 0, rect_top = 0, rect_width = 640, rect_height = 480\<rparr>"

definition narrow_and_grab :: "crop_event list" where
  "narrow_and_grab =
     [CropMouseDown (pointer_at 576 240) ResizeR (Some photo_rect) (Some photo_rect),
      CropMouseMove (pointer_at 272 240) (Some photo_rect),
      CropMouseUp,
      CropMouseDown (pointer_at 128 240) Move (Some photo_rect) (Some photo_rect)]"

definition grabbed_editor :: editor where
  "grabbed_editor = crop_session64 (initial_editor64 sample_file) narrow_and_grab"

text \<open>
  A three by two image under the sepia preset, a quarter turn, blur 4 and sharpen 25;
  the canvas this asks for; and a browser of which one rendering is known: it encodes
  that canvas to the image turned clockwise, and gives nothing for any other canvas.
\<close>

definition strip_file :: image_file where
  "strip_file = \<lparr>file_name = ''strip.jpg'', file_type = ''image/jpeg'',
                  file_image = Some [[1, 2, 3], [4, 5, 6]]\<rparr>"

definition turned_editor :: editor where
  "turned_editor = (initial_editor strip_file)
     \<lparr>prompt := ''Add a hat'', selectedFilter := ''Sepia'', rotation := 90, blur := 4,
      sharpen := 25\<rparr>"

definition turned_canvas :: canvas where
  "turned_canvas =
     \<lparr>canvas_width = 2, canvas_height = 3,
      canvas_ops =
        [SetFilter ''sepia(100%) blur(4px) contrast(125%)'',
         Translate 1 (3 / 2),
         Rotate (884279719003555 / 2 ^ 49),
         DrawImage [[1, 2, 3], [4, 5, 6]] (- (3 / 2)) (- 1)]\<rparr>"

definition turned_toBlob :: "canvas \<Rightarrow> bitmap option" where
  "turned_toBlob cv = (if cv = turned_canvas then Some [[4, 1], [5, 2], [6, 3]] else None)"

definition darkroom_env :: env where
  "darkroom_env = sample_env\<lparr>toBlob := turned_toBlob\<rparr>"


section \<open>Rotation: four quarter turns\<close>

lemma js_rem_nonneg: "0 \<le> a \<Longrightarrow> 0 < b \<Longrightarrow> js_rem a b = a mod b"
  by (cases "a = 0") (simp_all add: js_rem_def)

lemma rotation_step:
  assumes "- 360 \<le> r + d"
  shows "js_rem (r + d + 360) 360 = (r + d) mod 360"
proof -
  have "0 \<le> r + d + 360" using assms by simp
  then have "js_rem (r + d + 360) 360 = (r + d + 360) mod 360"
    by (simp add: js_rem_nonneg)
  also have "\<dots> = (r + d) mod 360"
    by (rule mod_add_self2)
  finally show ?thesis .
qed

text \<open>
  The rotate buttons pass 90 and -90. From an angle in \<open>[0, 360)\<close> they lead to an angle
  in \<open>[0, 360)\<close>, and the reset sets 0: these are the angles the state ever holds.
\<close>

lemma handleRotate_range:
  assumes "0 \<le> rotation st" and "rotation st < 360" and "d = 90 \<or> d = - 90"
  shows "0 \<le> rotation (handleRotate d st) \<and> rotation (handleRotate d st) < 360"
proof -
  have "- 360 \<le> rotation st + d" using assms by auto
  then have "rotation (handleRotate d st) = (rotation st + d) mod 360"
    by (simp add: handleRotate_def rotation_step)
  then show ?thesis by simp
qed

lemma rotation_four_steps:
  assumes "0 \<le> r" and "r < 360"
  shows "js_rem (js_rem (js_rem (js_rem (r + 90 + 360) 360 + 90 + 360) 360 + 90 + 360) 360
           + 90 + 360) 360 = r"
proof -
  have s1: "js_rem (r + 90 + 360) 360 = (r + 90) mod 360"
    using assms by (intro rotation_step) simp
  have s2: "js_rem ((r + 90) mod 360 + 90 + 360) 360 = ((r + 90) mod 360 + 90) mod 360"
    by (intro rotation_step) (simp add: add_nonneg_nonneg)
  have s3: "js_rem (((r + 90) mod 360 + 90) mod 360 + 90 + 360) 360
            = (((r + 90) mod 360 + 90) mod 360 + 90) mod 360"
    by (intro rotation_step) (simp add: add_nonneg_nonneg)
  have s4: "js_rem ((((r + 90) mod 360 + 90) mod 360 + 90) mod 360 + 90 + 360) 360
            = ((((r + 90) mod 360 + 90) mod 360 + 90) mod 360 + 90) mod 360"
    by (intro rotation_step) (simp add: add_nonneg_nonneg)
  have "((((r + 90) mod 360 + 90) mod 360 + 90) mod 360 + 90) mod 360 = (r + 360) mod 360"
    by (simp add: mod_simps)
  also have "\<dots> = r" using assms by simp
  finally show ?thesis by (simp only: s1 s2 s3 s4)
qed

text \<open>
  C7. From every rotation angle the state can hold (a whole number of degrees in
  \<open>[0, 360)\<close>), rotating by 90 degrees four times gives back the state it started
  from, the angle included, and with it the orientation of the preview.
\<close>

theorem rotate_four_times:
  assumes "0 \<le> rotation st" and "rotation st < 360"
  shows "handleRotate 90 (handleRotate 90 (handleRotate 90 (handleRotate 90 st))) = st"
  using rotation_four_steps [OF assms] by (simp add: handleRotate_def)

theorem rotate_four_times_witness:
  "(0::int) \<le> 270 \<and> (270::int) < 360 \<and>
   handleRotate 90 (handleRotate 90 (handleRotate 90 (handleRotate 90
     ((initial_editor \<lparr>file_name = ''a.png'', file_type = ''image/png'', file_image = None\<rparr>)
        \<lparr>rotation := 270\<rparr>))))
   = (initial_editor \<lparr>file_name = ''a.png'', file_type = ''image/png'', file_image = None\<rparr>)
        \<lparr>rotation := 270\<rparr>"
  using rotate_four_times
    [of "(initial_editor \<lparr>file_name = ''a.png'', file_type = ''image/png'', file_image = None\<rparr>)
           \<lparr>rotation := 270\<rparr>"]
  by (simp add: initial_editor_def)

section \<open>Rounding to binary64\<close>

text \<open>
  The exponent found by halving or doubling brackets the number, so \<open>quantum x\<close> is the
  spacing of the binary64 values around \<open>x\<close>, and rounding moves a number by at most half
  of it.
\<close>

lemma two_powi_succ: "(2::real) powi (e + 1) = 2 * 2 powi e"
  by (simp add: power_int_add)

lemma exponent_up_bounds:
  "1 \<le> x \<Longrightarrow> 2 powi exponent_up x \<le> x \<and> x < 2 powi (exponent_up x + 1)"
proof (induction x rule: exponent_up.induct)
  case (1 x)
  show ?case
  proof (cases "x < 2")
    case True
    then have "exponent_up x = 0" by (simp add: exponent_up.simps [of x])
    then show ?thesis using True "1.prems" by simp
  next
    case False
    let ?e = "exponent_up (x / 2)"
    have e: "exponent_up x = ?e + 1" using False by (simp add: exponent_up.simps [of x])
    have "2 powi ?e \<le> x / 2 \<and> x / 2 < 2 powi (?e + 1)"
      using "1.IH" False by simp
    then have "2 * 2 powi ?e \<le> x \<and> x < 2 * 2 powi (?e + 1)" by simp
    then show ?thesis unfolding e two_powi_succ .
  qed
qed

lemma exponent_down_bounds:
  "0 < x \<Longrightarrow> x < 1 \<Longrightarrow> 2 powi exponent_down x \<le> x \<and> x < 2 powi (exponent_down x + 1)"
proof (induction x rule: exponent_down.induct)
  case (1 x)
  let ?e = "exponent_down (2 * x)"
  have e: "exponent_down x = ?e - 1" using "1.prems" by (simp add: exponent_down.simps [of x])
  have split: "(2::real) powi ?e = 2 * 2 powi (?e - 1)"
    using two_powi_succ [of "?e - 1"] by simp
  show ?case
  proof (cases "2 * x < 1")
    case True
    then have "2 powi ?e \<le> 2 * x \<and> 2 * x < 2 powi (?e + 1)"
      using "1.IH" "1.prems" by simp
    then have "2 * 2 powi (?e - 1) \<le> 2 * x \<and> 2 * x < 2 * 2 powi ?e"
      unfolding two_powi_succ using split by simp
    then have "2 powi (?e - 1) \<le> x \<and> x < 2 powi ?e" by simp
    then show ?thesis unfolding e by simp
  next
    case False
    then have "?e = 0" by (simp add: exponent_down.simps [of "2 * x"])
    then have "exponent_down x = - 1" using e by simp
    then show ?thesis using False "1.prems" by simp
  qed
qed

lemma binade_bounds:
  assumes "x \<noteq> 0"
  shows "2 powi binade x \<le> \<bar>x\<bar> \<and> \<bar>x\<bar> < 2 powi (binade x + 1)"
proof (cases "1 \<le> \<bar>x\<bar>")
  case True
  then show ?thesis using exponent_up_bounds [of "\<bar>x\<bar>"] by (simp add: binade_def)
next
  case False
  then show ?thesis using assms exponent_down_bounds [of "\<bar>x\<bar>"] by (simp add: binade_def)
qed

lemma round_half_even_error: "\<bar>real_of_int (round_half_even y) - y\<bar> \<le> 1 / 2"
  unfolding round_half_even_def Let_def by (auto simp: abs_if) linarith+

lemma round_half_even_nonneg: "0 \<le> y \<Longrightarrow> 0 \<le> round_half_even y"
  unfolding round_half_even_def Let_def by (auto simp: le_floor_iff)

lemma quantum_pos: "0 < quantum x"
  by (simp add: quantum_def)

lemma binary64_error: "\<bar>binary64 x - x\<bar> \<le> quantum x / 2"
proof (cases "x = 0")
  case True
  then show ?thesis using quantum_pos [of x] by (simp add: binary64_def)
next
  case False
  let ?q = "quantum x"
  have q: "0 < ?q" by (rule quantum_pos)
  have "binary64 x - x = (real_of_int (round_half_even (x / ?q)) - x / ?q) * ?q"
    using False q by (simp add: binary64_def left_diff_distrib)
  then have "\<bar>binary64 x - x\<bar> = \<bar>real_of_int (round_half_even (x / ?q)) - x / ?q\<bar> * ?q"
    using q by (simp add: abs_mult)
  also have "\<dots> \<le> 1 / 2 * ?q"
    using round_half_even_error [of "x / ?q"] q by (intro mult_right_mono) simp_all
  finally show ?thesis by simp
qed

lemma quantum_bound:
  assumes "x \<noteq> 0" and "\<bar>x\<bar> \<le> B" and "2 powi (- 1022) \<le> B"
  shows "quantum x \<le> 2 powi (- 52) * B"
proof -
  have "2 powi max (binade x) (- 1022) \<le> B"
    using binade_bounds [OF assms(1)] assms(2,3) by (simp add: max_def)
  moreover have "(2::real) powi (max (binade x) (- 1022) - 52)
                 = 2 powi max (binade x) (- 1022) * 2 powi (- 52)"
    using power_int_add [of "2::real" "max (binade x) (- 1022)" "- 52"] by simp
  moreover have "0 \<le> (2::real) powi (- 52)" by simp
  ultimately have "2 powi (max (binade x) (- 1022) - 52) \<le> B * 2 powi (- 52)"
    by (simp only: mult_right_mono)
  then show ?thesis by (simp add: quantum_def mult.commute)
qed

text \<open>
  The unit roundoff: a result of magnitude at most \<open>B\<close> is rounded with an error of at
  most \<open>2 powi (- 53) * B\<close>.
\<close>

lemma binary64_close:
  assumes "\<bar>x\<bar> \<le> B" and "2 powi (- 1022) \<le> B"
  shows "\<bar>binary64 x - x\<bar> \<le> 2 powi (- 53) * B"
proof (cases "x = 0")
  case True
  have "0 \<le> B" using assms(1) by simp
  then show ?thesis using True by (simp add: binary64_def)
next
  case False
  have "\<bar>binary64 x - x\<bar> \<le> quantum x / 2" by (rule binary64_error)
  also have "\<dots> \<le> 2 powi (- 52) * B / 2"
    using quantum_bound [OF False assms] by simp
  also have "\<dots> = 2 powi (- 53) * B" by simp
  finally show ?thesis .
qed

lemma binary64_nonneg: "0 \<le> x \<Longrightarrow> 0 \<le> binary64 x"
  using quantum_pos [of x] round_half_even_nonneg [of "x / quantum x"]
  by (simp add: binary64_def)

lemma abs_product_bound:
  fixes a b :: real
  assumes "\<bar>a\<bar> \<le> A" and "\<bar>b\<bar> \<le> C"
  shows "\<bar>a * b\<bar> \<le> A * C"
proof -
  have "0 \<le> A" using assms(1) by simp
  then show ?thesis
    unfolding abs_mult using assms by (intro mult_mono) simp_all
qed

lemma binary64_within:
  assumes "\<bar>x\<bar> \<le> B" and "1 \<le> B"
  shows "\<bar>binary64 x - x\<bar> \<le> 2 powi (- 53) * B" and "\<bar>binary64 x\<bar> \<le> B + 2 powi (- 53) * B"
proof -
  have "(2::real) powi (- 1022) \<le> 1"
    by (simp add: power_int_minus field_simps)
  then have "2 powi (- 1022) \<le> B" using assms(2) by simp
  then show e: "\<bar>binary64 x - x\<bar> \<le> 2 powi (- 53) * B"
    using assms(1) by (intro binary64_close)
  show "\<bar>binary64 x\<bar> \<le> B + 2 powi (- 53) * B"
    using e assms(1) by linarith
qed

text \<open>
  Rounding a given rational number is a computation: the rules below unfold
  \<open>binary64\<close> on numerals and quotients of numerals only.
\<close>

lemma binary64_0 [simp]: "binary64 0 = 0"
  by (simp add: binary64_def)

lemmas binary64_constant =
  binary64_def [of "numeral a"] binary64_def [of "numeral a / numeral b"]
  binary64_def [of "1 / numeral b"] binary64_def [of 1]
  binary64_def [of "- numeral a"] binary64_def [of "- (numeral a / numeral b)"]
  binary64_def [of "- (1 / numeral b)"] binary64_def [of "- 1"]
  for a b

lemmas exponent_constant =
  exponent_up.simps [of "numeral a"] exponent_up.simps [of "numeral a / numeral b"]
  exponent_up.simps [of 1]
  exponent_down.simps [of "numeral a / numeral b"] exponent_down.simps [of "1 / numeral b"]
  exponent_down.simps [of "numeral a"] exponent_down.simps [of 1]
  for a b

lemmas binary64_eval = binary64_constant exponent_constant quantum_def binade_def
  round_half_even_def Let_def

lemma binary64_literals:
  "binary64 1.1 = 4953959590107546 / 2 ^ 52"
  "binary64 0.1 = 3602879701896397 / 2 ^ 55"
  "binary64 0.8 = 3602879701896397 / 2 ^ 52"
  "binary64 0.05 = 3602879701896397 / 2 ^ 56"
  by (simp_all add: binary64_eval)

section \<open>Wheel zoom\<close>

lemma handleWheel_no_container: "handleWheel e None st = st"
  by (simp add: handleWheel_def)

text \<open>
  Every handler that writes the scale leaves it in \<open>[0.5, 5]\<close>, and it starts at 1: the
  scale the wheel handler divides by is never 0.
\<close>

lemma scale_range_kept:
  "0.5 \<le> scale (handleWheel e (Some rect) st) \<and> scale (handleWheel e (Some rect) st) \<le> 5"
  "0.5 \<le> scale (handleZoomAction d st) \<and> scale (handleZoomAction d st) \<le> 5"
  "scale (handleResetView st) = 1"
  "scale (onSetNewOriginal f st) = 1"
  "scale (initial_editor f) = 1"
  by (simp_all add: handleWheel_def handleZoomAction_def handleResetView_def
        onSetNewOriginal_def initial_editor_def Let_def)

text \<open>
  The new offset is the cursor minus a rounded product of a rounded difference and a
  rounded quotient, rounded once more: four roundings, which move the anchored point by
  at most 110 unit roundoffs of the largest magnitude involved.
\<close>

lemma anchor_error:
  fixes m p s c q B :: real
  assumes s: "1 / 2 \<le> s" "s \<le> 5" and c: "1 / 2 \<le> c" "c \<le> 5"
    and m: "\<bar>m\<bar> \<le> B" and p: "\<bar>p\<bar> \<le> B" and B: "1 \<le> B"
    and anchor: "p + s * q = m"
  shows "\<bar>binary64 (m - binary64 (binary64 (m - p) * binary64 (c / s))) + c * q - m\<bar>
         \<le> 2 powi (- 46) * B"
proof -
  define u :: real where "u = 2 powi (- 53)"
  have u: "0 < u" "u \<le> 1 / 1000" by (simp_all add: u_def power_int_minus field_simps)
  define D where "D = m - p"
  define R where "R = c / s"
  define d where "d = binary64 D"
  define r where "r = binary64 R"
  define t where "t = binary64 (d * r)"
  define X where "X = binary64 (m - t)"
  have DR: "c * q = D * R"
  proof -
    have "s * q = D" using anchor by (simp add: D_def)
    then have "q = D / s" using s by (simp add: field_simps)
    then show ?thesis by (simp add: R_def)
  qed
  have D: "\<bar>D\<bar> \<le> 2 * B" using m p by (simp add: D_def)
  have R: "\<bar>R\<bar> \<le> 10"
  proof -
    have "c / s \<le> 5 / (1 / 2)" using s c by (intro frac_le) simp_all
    moreover have "0 \<le> c / s" using s c by simp
    ultimately show ?thesis by (simp add: R_def)
  qed
  have dD: "\<bar>d - D\<bar> \<le> u * (2 * B)" and d: "\<bar>d\<bar> \<le> 2 * B + u * (2 * B)"
    using binary64_within [OF D] B unfolding d_def u_def by simp_all
  have rR: "\<bar>r - R\<bar> \<le> u * 10" and r: "\<bar>r\<bar> \<le> 10 + u * 10"
    using binary64_within [OF R] unfolding r_def u_def by simp_all
  have d3: "\<bar>d\<bar> \<le> 3 * B"
  proof -
    have "u * (2 * B) \<le> 1 / 1000 * (2 * B)" using u B by (intro mult_right_mono) simp_all
    then show ?thesis using d B by linarith
  qed
  have r11: "\<bar>r\<bar> \<le> 11" using r u by linarith
  have P: "\<bar>d * r\<bar> \<le> 33 * B"
    using abs_product_bound [OF d3 r11] by simp
  have tP: "\<bar>t - d * r\<bar> \<le> u * (33 * B)" and t: "\<bar>t\<bar> \<le> 33 * B + u * (33 * B)"
    using binary64_within [OF P] B unfolding t_def u_def by simp_all
  have t34: "\<bar>t\<bar> \<le> 34 * B"
  proof -
    have "u * (33 * B) \<le> 1 / 1000 * (33 * B)" using u B by (intro mult_right_mono) simp_all
    then show ?thesis using t B by linarith
  qed
  have Q: "\<bar>m - t\<bar> \<le> 35 * B" using m t34 by simp
  have XQ: "\<bar>X - (m - t)\<bar> \<le> u * (35 * B)"
    using binary64_within(1) [OF Q] B unfolding X_def u_def by simp
  have PD: "\<bar>d * r - D * R\<bar> \<le> u * (42 * B)"
  proof -
    have "d * r - D * R = (d - D) * r + D * (r - R)" by (simp add: algebra_simps)
    moreover have "\<bar>(d - D) * r\<bar> \<le> u * (2 * B) * 11"
      by (rule abs_product_bound [OF dD r11])
    moreover have "\<bar>D * (r - R)\<bar> \<le> 2 * B * (u * 10)"
      by (rule abs_product_bound [OF D rR])
    ultimately have "\<bar>d * r - D * R\<bar> \<le> u * (2 * B) * 11 + 2 * B * (u * 10)"
      by linarith
    then show ?thesis by (simp add: algebra_simps)
  qed
  have "X + c * q - m = (X - (m - t)) - (t - d * r) - (d * r - D * R)"
    by (simp add: DR)
  then have "\<bar>X + c * q - m\<bar> \<le> u * (35 * B) + u * (33 * B) + u * (42 * B)"
    using XQ tP PD by linarith
  also have "\<dots> = 110 * (u * B)" by (simp add: algebra_simps)
  also have "\<dots> \<le> 128 * (u * B)" using u B by simp
  also have "\<dots> = 2 powi (- 46) * B"
    by (simp add: u_def power_int_minus)
  finally show ?thesis
    unfolding X_def t_def d_def r_def D_def R_def .
qed

lemma zoomed_out_editor_eq:
  "zoomed_out_editor = (initial_editor sample_file)\<lparr>scale := 7505999378950827 / 2 ^ 53\<rparr>"
  by (simp add: zoomed_out_editor_def handleZoomAction_def initial_editor_def binary64_eval)

lemma wheel_after_zoom_out:
  "handleWheel wheel_up_at_22_60 (Some square_rect) zoomed_out_editor
   = (initial_editor sample_file)
       \<lparr>scale := 4128299658422955 / 2 ^ 52,
        position := \<lparr>pos_x = - (675539944105575 / 2 ^ 49), pos_y = - 4\<rparr>\<rparr>"
  unfolding zoomed_out_editor_eq
  by (simp add: handleWheel_def wheel_up_at_22_60_def square_rect_def initial_editor_def
        binary64_eval)

text \<open>
  C8, as the specification has it, fails. After one press of the zoom-out button the
  scale is the binary64 value next to 1/1.2. A wheel-up with the cursor 12 pixels into
  the container then leaves the point that was under the cursor (the \<open>p\<close> with
  offset + scale * \<open>p\<close> = 12) off the cursor: new offset + new scale * \<open>p\<close> is not 12 as
  a real number, and computed in binary64 it is 11.999999999999998.
\<close>

theorem wheel_zoom_anchor_counterexample:
  "pos_x (position zoomed_out_editor)
     + scale zoomed_out_editor * (12 / scale zoomed_out_editor)
     = binary64 (wheel_clientX wheel_up_at_22_60 - rect_left square_rect)
   \<and> pos_x (position (handleWheel wheel_up_at_22_60 (Some square_rect) zoomed_out_editor))
       + scale (handleWheel wheel_up_at_22_60 (Some square_rect) zoomed_out_editor)
         * (12 / scale zoomed_out_editor)
     \<noteq> binary64 (wheel_clientX wheel_up_at_22_60 - rect_left square_rect)
   \<and> binary64 (pos_x (position (handleWheel wheel_up_at_22_60 (Some square_rect) zoomed_out_editor))
       + binary64 (scale (handleWheel wheel_up_at_22_60 (Some square_rect) zoomed_out_editor)
                   * binary64 (12 / scale zoomed_out_editor)))
     = 6755399441055743 / 2 ^ 49
   \<and> binary64 (wheel_clientX wheel_up_at_22_60 - rect_left square_rect) = 12"
  unfolding wheel_after_zoom_out
  by (simp add: zoomed_out_editor_eq wheel_up_at_22_60_def square_rect_def initial_editor_def
        binary64_eval)

text \<open>
  C8, amended. A wheel event over the container sets the scale to the rounded product
  \<open>scale * 1.1\<close> (wheel up) or the rounded quotient \<open>scale / 1.1\<close> (wheel down), clamped
  to \<open>[0.5, 5]\<close>. The image point \<open>(px, py)\<close> that was under the cursor, the scale
  before the event being in \<open>[0.5, 5]\<close>, is afterwards within \<open>2 powi (- 46) * B\<close> of the
  cursor in each coordinate, whether or not the scale was clamped, where \<open>B \<ge> 1\<close> bounds
  the magnitudes of the cursor coordinates and of the offset (and stays far below the
  overflow threshold).
\<close>

theorem wheel_zoom_anchor_rounded:
  assumes "1 / 2 \<le> scale st" and "scale st \<le> 5"
    and "mouseX = binary64 (wheel_clientX e - rect_left rect)"
    and "mouseY = binary64 (wheel_clientY e - rect_top rect)"
    and "\<bar>mouseX\<bar> \<le> B" and "\<bar>mouseY\<bar> \<le> B"
    and "\<bar>pos_x (position st)\<bar> \<le> B" and "\<bar>pos_y (position st)\<bar> \<le> B"
    and "1 \<le> B" and "B \<le> 2 ^ 1000"
    and "pos_x (position st) + scale st * px = mouseX"
    and "pos_y (position st) + scale st * py = mouseY"
    and "st' = handleWheel e (Some rect) st"
  shows "scale st' = min (max 0.5 (if deltaY e < 0 then binary64 (scale st * binary64 1.1)
                                    else binary64 (scale st / binary64 1.1))) 5
       \<and> 0.5 \<le> scale st' \<and> scale st' \<le> 5
       \<and> \<bar>pos_x (position st') + scale st' * px - mouseX\<bar> \<le> 2 powi (- 46) * B
       \<and> \<bar>pos_y (position st') + scale st' * py - mouseY\<bar> \<le> 2 powi (- 46) * B"
proof -
  let ?c = "min (max 0.5 (if deltaY e < 0 then binary64 (scale st * binary64 1.1)
                          else binary64 (scale st / binary64 1.1))) 5"
  have sc: "scale st' = ?c"
    using assms(13) by (simp add: handleWheel_def Let_def)
  have c: "1 / 2 \<le> ?c" "?c \<le> 5" by simp_all
  have x: "pos_x (position st')
           = binary64 (mouseX - binary64 (binary64 (mouseX - pos_x (position st))
                                           * binary64 (?c / scale st)))"
    using assms(3,13) by (simp add: handleWheel_def Let_def)
  have y: "pos_y (position st')
           = binary64 (mouseY - binary64 (binary64 (mouseY - pos_y (position st))
                                           * binary64 (?c / scale st)))"
    using assms(4,13) by (simp add: handleWheel_def Let_def)
  have ex: "\<bar>pos_x (position st') + scale st' * px - mouseX\<bar> \<le> 2 powi (- 46) * B"
    unfolding x sc by (rule anchor_error [OF assms(1,2) c assms(5,7,9,11)])
  have ey: "\<bar>pos_y (position st') + scale st' * py - mouseY\<bar> \<le> 2 powi (- 46) * B"
    unfolding y sc by (rule anchor_error [OF assms(1,2) c assms(6,8,9,12)])
  show ?thesis using sc c ex ey by simp
qed

lemma wheel_up_example:
  "handleWheel wheel_up_at_87_60 (Some square_rect) (initial_editor sample_file)
   = (initial_editor sample_file)
       \<lparr>scale := 4953959590107546 / 2 ^ 52,
        position := \<lparr>pos_x = - (541839330168013 / 2 ^ 46), pos_y = - 4\<rparr>\<rparr>"
  by (simp add: handleWheel_def wheel_up_at_87_60_def square_rect_def initial_editor_def
        binary64_eval)

text \<open>
  From the initial view (scale 1, offset 0) a wheel-up at (77, 40) gives the scale the
  binary64 value next to 1.1, and the point stays within the bound for \<open>B = 128\<close>.
\<close>

theorem wheel_zoom_anchor_rounded_witness:
  "scale (handleWheel wheel_up_at_87_60 (Some square_rect) (initial_editor sample_file))
     = 4953959590107546 / 2 ^ 52
   \<and> \<bar>pos_x (position (handleWheel wheel_up_at_87_60 (Some square_rect) (initial_editor sample_file)))
       + scale (handleWheel wheel_up_at_87_60 (Some square_rect) (initial_editor sample_file)) * 77
       - 77\<bar> \<le> 2 powi (- 46) * 128
   \<and> \<bar>pos_y (position (handleWheel wheel_up_at_87_60 (Some square_rect) (initial_editor sample_file)))
       + scale (handleWheel wheel_up_at_87_60 (Some square_rect) (initial_editor sample_file)) * 40
       - 40\<bar> \<le> 2 powi (- 46) * 128"
proof -
  let ?st = "initial_editor sample_file"
  have s: "1 / 2 \<le> scale ?st" "scale ?st \<le> 5"
    by (simp_all add: initial_editor_def)
  have mx: "77 = binary64 (wheel_clientX wheel_up_at_87_60 - rect_left square_rect)"
    and my: "40 = binary64 (wheel_clientY wheel_up_at_87_60 - rect_top square_rect)"
    by (simp_all add: wheel_up_at_87_60_def square_rect_def binary64_eval)
  have b: "\<bar>77::real\<bar> \<le> 128" "\<bar>40::real\<bar> \<le> 128"
    "\<bar>pos_x (position ?st)\<bar> \<le> 128" "\<bar>pos_y (position ?st)\<bar> \<le> 128"
    "(1::real) \<le> 128" "(128::real) \<le> 2 ^ 1000"
    by (simp_all add: initial_editor_def)
  have a: "pos_x (position ?st) + scale ?st * 77 = 77" "pos_y (position ?st) + scale ?st * 40 = 40"
    by (simp_all add: initial_editor_def)
  have up: "deltaY wheel_up_at_87_60 < 0" by (simp add: wheel_up_at_87_60_def)
  have sc: "binary64 (scale ?st * binary64 1.1) = 4953959590107546 / 2 ^ 52"
    by (simp add: initial_editor_def binary64_eval)
  show ?thesis
    using wheel_zoom_anchor_rounded [OF s mx my b a refl] up sc
    by simp
qed

section \<open>The crop rectangle\<close>

subsection \<open>What the boundary checks and the resize steps guarantee\<close>

text \<open>The three fixed ratios as numbers, and the one name that switches the ratio off.\<close>

lemma ratio_of_values [simp]:
  "ratio_of Ratio_1_1 = 1" "ratio_of Ratio_16_9 = 16 / 9" "ratio_of Ratio_4_3 = 4 / 3"
  by (simp_all add: ratio_of_def element_at_def Number_of_def is_digit_def)

lemma aspect_name_Free [simp]: "aspect_name ar = ''Free'' \<longleftrightarrow> ar = Free"
  by (cases ar) simp_all

text \<open>
  The four assignments of the boundary checks amount to this: the position is clamped
  into the room the size leaves, and a size above 1 is cut to 1.
\<close>

lemma boundary_checks_eq:
  "boundary_checks c =
     \<lparr>crop_x = max 0 (min (crop_x c) (1 - crop_width c)),
      crop_y = max 0 (min (crop_y c) (1 - crop_height c)),
      crop_width = min (crop_width c) 1,
      crop_height = min (crop_height c) 1\<rparr>"
  by (cases c) (auto simp: boundary_checks_def Let_def min_def max_def)

lemma boundary_checks_within: "within_image (boundary_checks c)"
  by (simp add: boundary_checks_eq within_image_def) (auto simp: min_def max_def)

lemma boundary_checks_min_size:
  assumes "min_size hmin c" and "hmin \<le> 1"
  shows "min_size hmin (boundary_checks c)"
  using assms by (simp add: boundary_checks_eq min_size_def)

lemma prevent_inversion_size:
  "0.05 \<le> crop_width (prevent_inversion ty sc c) \<and> 0.05 \<le> crop_height (prevent_inversion ty sc c)"
  by (simp add: prevent_inversion_def Let_def split: prod.splits)

lemma ratio_of_ge_1: "ar \<noteq> Free \<Longrightarrow> 1 \<le> ratio_of ar"
  by (cases ar) simp_all

lemma enforce_aspect_size:
  assumes "0.05 \<le> crop_width c" and "0.05 \<le> crop_height c"
    and "aspect_fits hmin ar" and "hmin \<le> 0.05"
  shows "min_size hmin (enforce_aspect ar ty sc c)"
proof (cases "ar = Free")
  case True
  then show ?thesis using assms by (simp add: enforce_aspect_def min_size_def)
next
  case False
  then have r1: "1 \<le> ratio_of ar" by (rule ratio_of_ge_1)
  have fit: "hmin \<le> 0.05 / ratio_of ar" using assms(3) False by (simp add: aspect_fits_def)
  have w: "0.05 \<le> crop_height c * ratio_of ar"
  proof -
    have "0.05 * 1 \<le> crop_height c * ratio_of ar"
      using assms(2) r1 by (intro mult_mono) simp_all
    then show ?thesis by simp
  qed
  have h: "hmin \<le> crop_width c / ratio_of ar"
  proof -
    have "0.05 / ratio_of ar \<le> crop_width c / ratio_of ar"
      using assms(1) r1 by (intro divide_right_mono) simp_all
    then show ?thesis using fit by simp
  qed
  show ?thesis
    using False assms(1,2,4) w h by (simp add: enforce_aspect_def Let_def min_size_def)
qed

lemma proposed_crop_size:
  assumes "min_size hmin (startCrop ci)" and "aspect_fits hmin ar" and "hmin \<le> 0.05"
  shows "min_size hmin (proposed_crop ar ci dx dy)"
proof (cases "startsWith (type_name (ci_type ci)) ''resize-''")
  case True
  then show ?thesis
    using enforce_aspect_size [OF _ _ assms(2,3)] prevent_inversion_size
    by (simp add: proposed_crop_def Let_def)
next
  case False
  then show ?thesis using assms(1) by (simp add: proposed_crop_def Let_def min_size_def)
qed


lemma handleCropMouseMove_ok:
  assumes "crop_state_ok hmin st" and "aspect_fits hmin (aspectRatio st)" and "hmin \<le> 0.05"
  shows "crop_state_ok hmin (handleCropMouseMove e ir st)"
proof (cases "cropInteraction st")
  case None
  then show ?thesis using assms(1) by (simp add: handleCropMouseMove_def)
next
  case (Some ci)
  then have snap: "min_size hmin (startCrop ci)"
    using assms(1) by (simp add: crop_state_ok_def)
  show ?thesis
  proof (cases ir)
    case None
    then show ?thesis using assms(1) Some by (simp add: handleCropMouseMove_def)
  next
    case (Some r)
    have "min_size hmin (boundary_checks (proposed_crop (aspectRatio st) ci dx dy))" for dx dy
      using proposed_crop_size [OF snap assms(2,3)] assms(3)
      by (intro boundary_checks_min_size) simp_all
    then show ?thesis
      using \<open>cropInteraction st = Some ci\<close> Some snap boundary_checks_within
      by (simp add: handleCropMouseMove_def Let_def crop_state_ok_def)
  qed
qed

lemma handleCropMouseDown_ok:
  assumes "crop_state_ok hmin st"
  shows "crop_state_ok hmin (handleCropMouseDown e ty ir cr st)"
  using assms
  by (auto simp: handleCropMouseDown_def Let_def crop_state_ok_def split: option.splits)

lemma crop_step_ok:
  assumes "crop_state_ok hmin st" and "aspect_fits hmin (aspectRatio st)" and "hmin \<le> 0.05"
    and "selects_only (aspect_fits hmin) ev"
  shows "crop_state_ok hmin (crop_step st ev) \<and> aspect_fits hmin (aspectRatio (crop_step st ev))"
proof (cases ev)
  case (CropMouseDown e ty ir cr)
  then show ?thesis
    using handleCropMouseDown_ok [OF assms(1)] assms(2)
    by (simp add: handleCropMouseDown_def Let_def split: option.splits)
next
  case (CropMouseMove e ir)
  then show ?thesis
    using handleCropMouseMove_ok [OF assms(1,2,3)] assms(2)
    by (simp add: handleCropMouseMove_def Let_def split: option.splits)
next
  case CropMouseUp
  then show ?thesis
    using assms(1,2) by (simp add: handleCropMouseUp_def crop_state_ok_def)
next
  case (SelectAspectRatio ar)
  then show ?thesis
    using assms(1,4) by (simp add: setAspectRatio_def crop_state_ok_def)
qed

lemma crop_session_ok:
  assumes "crop_state_ok hmin st" and "aspect_fits hmin (aspectRatio st)" and "hmin \<le> 0.05"
    and "\<forall>ev \<in> set evs. selects_only (aspect_fits hmin) ev"
  shows "crop_state_ok hmin (crop_session st evs)"
  using assms
proof (induction evs arbitrary: st)
  case Nil
  then show ?case by (simp add: crop_session_def)
next
  case (Cons ev evs)
  have step: "crop_state_ok hmin (crop_step st ev) \<and> aspect_fits hmin (aspectRatio (crop_step st ev))"
    using Cons.prems by (intro crop_step_ok) simp_all
  have "crop_state_ok hmin (crop_session (crop_step st ev) evs)"
    using step Cons.prems by (intro Cons.IH) simp_all
  then show ?case by (simp add: crop_session_def)
qed

lemma aspect_fits_any: "aspect_fits (0.05 * (9 / 16)) ar"
  by (cases ar) (simp_all add: aspect_fits_def)

lemma aspect_fits_square: "free_or_square ar \<Longrightarrow> aspect_fits 0.05 ar"
  by (auto simp: aspect_fits_def free_or_square_def)

lemma selects_only_mono:
  assumes "selects_only P ev" and "\<And>ar. P ar \<Longrightarrow> Q ar"
  shows "selects_only Q ev"
  using assms by (cases ev) simp_all

lemma selects_only_all: "(\<And>ar. P ar) \<Longrightarrow> selects_only P ev"
  by (cases ev) simp_all

lemma crop_state_ok_weaken:
  assumes "crop_state_ok h st" and "h' \<le> h"
  shows "crop_state_ok h' st"
  using assms by (auto simp: crop_state_ok_def min_size_def split: option.splits)



text \<open>
  Every resize type begins with \<^verbatim>\<open>resize-\<close> and so contains the letter \<open>r\<close>: the test
  \<^verbatim>\<open>type.includes('r')\<close> holds for all eight handles. The horizontal displacement is
  added to the width whichever handle is dragged; for the left handle it cancels the
  subtraction made just before, and the width stays what it was.
\<close>

lemma resize_types_include_r: "ty \<noteq> Move \<Longrightarrow> str_includes (type_name ty) (CHR ''r'')"
  by (cases ty) (simp_all add: str_includes_def)

lemma resize_left_handle:
  "resize_edges (type_name ResizeL) sc dx dy
   = \<lparr>crop_x = crop_x sc + dx, crop_y = crop_y sc,
      crop_width = crop_width sc, crop_height = crop_height sc\<rparr>"
  by (simp add: resize_edges_def str_includes_def)

lemma proposed_crop_move:
  assumes "ci_type ci = Move"
  shows "proposed_crop ar ci dx dy
         = (startCrop ci)\<lparr>crop_x := crop_x (startCrop ci) + dx, crop_y := crop_y (startCrop ci) + dy\<rparr>"
  using assms by (simp add: proposed_crop_def startsWith_def Let_def)




lemmas crop_eval =
  crop_session_def handleCropMouseDown_def handleCropMouseMove_def handleCropMouseUp_def
  setAspectRatio_def proposed_crop_def resize_edges_def prevent_inversion_def enforce_aspect_def
  boundary_checks_eq startsWith_def str_includes_def initial_editor_def initial_crop_def
  square_rect_def pointer_at_def Let_def

subsection \<open>The invariant of the rectangle\<close>

text \<open>
  The claim as the specification has it fails: with 16:9 selected, dragging the right
  handle of the initial rectangle to the left until the width reaches its minimum 0.05
  gives the height 0.05 / (16/9), below 0.05.
\<close>

theorem crop_min_height_counterexample:
  "crop (crop_session (initial_editor sample_file)
           [SelectAspectRatio Ratio_16_9,
            CropMouseDown (pointer_at 100 70) ResizeR (Some square_rect) (Some square_rect),
            CropMouseMove (pointer_at 20 70) (Some square_rect)])
   = \<lparr>crop_x = 1 / 10, crop_y = 1 / 10, crop_width = 1 / 20, crop_height = 9 / 320\<rparr>
   \<and> \<not> 0.05 \<le> crop_height (crop (crop_session (initial_editor sample_file)
           [SelectAspectRatio Ratio_16_9,
            CropMouseDown (pointer_at 100 70) ResizeR (Some square_rect) (Some square_rect),
            CropMouseMove (pointer_at 20 70) (Some square_rect)]))"
  by (simp add: crop_eval)

text \<open>
  Whatever ratios are selected, the height stays at or above 0.05 * 9/16, the height a
  width of 0.05 has under 16:9.
\<close>

lemma crop_session_any_ratio:
  assumes "crop_state_ok 0.05 st"
  shows "crop_state_ok (0.05 * (9 / 16)) (crop_session st evs)"
proof -
  have "crop_state_ok (0.05 * (9 / 16)) st"
    using assms by (rule crop_state_ok_weaken) simp
  then show ?thesis
    by (intro crop_session_ok aspect_fits_any ballI selects_only_all) simp_all
qed

lemma crop_session_free_or_square:
  assumes "crop_state_ok 0.05 st" and "free_or_square (aspectRatio st)"
    and "\<forall>ev \<in> set evs. selects_only free_or_square ev"
  shows "crop_state_ok 0.05 (crop_session st evs)"
proof -
  have "\<forall>ev \<in> set evs. selects_only (aspect_fits 0.05) ev"
    using assms(3) selects_only_mono [where Q = "aspect_fits 0.05", OF _ aspect_fits_square]
    by blast
  then show ?thesis
    using assms(1) aspect_fits_square [OF assms(2)] by (intro crop_session_ok) simp_all
qed

text \<open>
  C1, amended. Start from a crop state in order (rectangle inside the image, width and
  height at least 0.05, as the initial one is) and let any sequence of pointer events
  and aspect-ratio selections reach the crop handlers, the image being displayed with a
  positive size. Then the rectangle lies inside the image (\<open>0 \<le> x\<close>, \<open>0 \<le> y\<close>,
  \<open>x + width \<le> 1\<close>, \<open>y + height \<le> 1\<close>) and its width is at least 0.05; its height is at
  least 0.05 as long as no ratio other than Free and 1:1 is selected.
\<close>

theorem crop_invariant_after_session:
  assumes "crop_state_ok 0.05 st"
    and "\<forall>ev \<in> set evs. rects_positive ev"
  shows "0 \<le> crop_x (crop (crop_session st evs))
       \<and> 0 \<le> crop_y (crop (crop_session st evs))
       \<and> crop_x (crop (crop_session st evs)) + crop_width (crop (crop_session st evs)) \<le> 1
       \<and> crop_y (crop (crop_session st evs)) + crop_height (crop (crop_session st evs)) \<le> 1
       \<and> 0.05 \<le> crop_width (crop (crop_session st evs))
       \<and> (free_or_square (aspectRatio st) \<and> (\<forall>ev \<in> set evs. selects_only free_or_square ev)
            \<longrightarrow> 0.05 \<le> crop_height (crop (crop_session st evs)))"
proof -
  have general: "0 \<le> crop_x (crop (crop_session st evs))
       \<and> 0 \<le> crop_y (crop (crop_session st evs))
       \<and> crop_x (crop (crop_session st evs)) + crop_width (crop (crop_session st evs)) \<le> 1
       \<and> crop_y (crop (crop_session st evs)) + crop_height (crop (crop_session st evs)) \<le> 1
       \<and> 0.05 \<le> crop_width (crop (crop_session st evs))"
    using crop_session_any_ratio [OF assms(1), of evs]
    by (simp add: crop_state_ok_def min_size_def within_image_def)
  have square: "0.05 \<le> crop_height (crop (crop_session st evs))"
    if "free_or_square (aspectRatio st)" and "\<forall>ev \<in> set evs. selects_only free_or_square ev"
    using crop_session_free_or_square [OF assms(1) that]
    by (simp add: crop_state_ok_def min_size_def)
  show ?thesis using general square by blast
qed

theorem crop_invariant_after_session_witness:
  "crop_state_ok 0.05 (initial_editor sample_file)
   \<and> 0 \<le> crop_x (crop (crop_session (initial_editor sample_file)
           [SelectAspectRatio Ratio_16_9,
            CropMouseDown (pointer_at 100 70) ResizeR (Some square_rect) (Some square_rect),
            CropMouseMove (pointer_at 150 70) (Some square_rect)]))
   \<and> crop_x (crop (crop_session (initial_editor sample_file)
           [SelectAspectRatio Ratio_16_9,
            CropMouseDown (pointer_at 100 70) ResizeR (Some square_rect) (Some square_rect),
            CropMouseMove (pointer_at 150 70) (Some square_rect)]))
     + crop_width (crop (crop_session (initial_editor sample_file)
           [SelectAspectRatio Ratio_16_9,
            CropMouseDown (pointer_at 100 70) ResizeR (Some square_rect) (Some square_rect),
            CropMouseMove (pointer_at 150 70) (Some square_rect)])) \<le> 1
   \<and> 0.05 \<le> crop_width (crop (crop_session (initial_editor sample_file)
           [SelectAspectRatio Ratio_16_9,
            CropMouseDown (pointer_at 100 70) ResizeR (Some square_rect) (Some square_rect),
            CropMouseMove (pointer_at 150 70) (Some square_rect)]))
   \<and> 0.05 \<le> crop_height (crop (crop_session (initial_editor sample_file)
           [SelectAspectRatio Ratio_1_1,
            CropMouseDown (pointer_at 100 70) ResizeR (Some square_rect) (Some square_rect),
            CropMouseMove (pointer_at 20 70) (Some square_rect)]))"
proof -
  have h1: "crop_state_ok 0.05 (initial_editor sample_file)"
    by (simp add: crop_state_ok_def within_image_def min_size_def initial_editor_def
          initial_crop_def)
  have h2: "\<forall>ev \<in> set [SelectAspectRatio ar,
            CropMouseDown (pointer_at 100 70) ResizeR (Some square_rect) (Some square_rect),
            CropMouseMove (pointer_at px 70) (Some square_rect)]. rects_positive ev" for ar px
    by (simp add: positive_rect_def square_rect_def)
  have h3: "free_or_square (aspectRatio (initial_editor sample_file))
            \<and> (\<forall>ev \<in> set [SelectAspectRatio Ratio_1_1,
            CropMouseDown (pointer_at 100 70) ResizeR (Some square_rect) (Some square_rect),
            CropMouseMove (pointer_at 20 70) (Some square_rect)]. selects_only free_or_square ev)"
    by (simp add: free_or_square_def initial_editor_def)
  show ?thesis
    using h1 h3 crop_invariant_after_session [OF h1 h2 [of Ratio_16_9 150]]
      crop_invariant_after_session [OF h1 h2 [of Ratio_1_1 20]]
    by blast
qed

subsection \<open>Resizing under a fixed aspect ratio\<close>




subsection \<open>Moving the rectangle\<close>

text \<open>
  The boundary checks clamp \<open>x\<close> to the rounded \<open>1 - width\<close> and then take the
  smaller of the width and the rounded \<open>1 - x\<close>: at the right edge that is the width less
  up to two roundings of numbers below 1.
\<close>

lemma clamp_then_measure:
  fixes a w :: real
  assumes "0 \<le> w" and "w \<le> 1"
    and "x' = max 0 (min a (binary64 (1 - w)))"
  shows "0 \<le> x' \<and> x' \<le> binary64 (1 - w)
       \<and> min w (binary64 (1 - x')) \<le> w
       \<and> w - 2 powi (- 52) \<le> min w (binary64 (1 - x'))"
proof -
  define u :: real where "u = 2 powi (- 53)"
  have u2: "2 * u = 2 powi (- 52)" by (simp add: u_def power_int_minus)
  have u1: "u \<le> 1" by (simp add: u_def power_int_minus field_simps)
  let ?v = "binary64 (1 - w)"
  have v0: "0 \<le> ?v" using assms(2) by (intro binary64_nonneg) simp
  have "\<bar>?v - (1 - w)\<bar> \<le> u * 1"
    unfolding u_def using assms(1,2) by (intro binary64_within(1)) simp_all
  then have v: "?v \<le> 1 - w + u" by linarith
  have x: "0 \<le> x'" "x' \<le> ?v" using assms(3) v0 by simp_all
  have "\<bar>1 - x'\<bar> \<le> 1" using x v assms(1) u1 by (simp add: abs_le_iff) 
  then have "\<bar>binary64 (1 - x') - (1 - x')\<bar> \<le> u * 1"
    unfolding u_def by (intro binary64_within(1)) simp_all
  then have "w - 2 * u \<le> binary64 (1 - x')" using x v by linarith
  then have "w - 2 powi (- 52) \<le> min w (binary64 (1 - x'))"
    unfolding u2 [symmetric] using u_def by (simp add: min_def)
  then show ?thesis using x by simp
qed

lemma boundary_checks64_eq:
  "boundary_checks64 c =
     \<lparr>crop_x = max 0 (min (crop_x c) (binary64 (1 - crop_width c))),
      crop_y = max 0 (min (crop_y c) (binary64 (1 - crop_height c))),
      crop_width = min (crop_width c)
                     (binary64 (1 - max 0 (min (crop_x c) (binary64 (1 - crop_width c))))),
      crop_height = min (crop_height c)
                      (binary64 (1 - max 0 (min (crop_y c) (binary64 (1 - crop_height c)))))\<rparr>"
  by (cases c) (simp add: boundary_checks64_def Let_def)

lemma proposed_crop64_move:
  assumes "ci_type ci = Move"
  shows "proposed_crop64 ar ci dx dy
         = (startCrop ci)\<lparr>crop_x := binary64 (crop_x (startCrop ci) + dx),
                           crop_y := binary64 (crop_y (startCrop ci) + dy)\<rparr>"
  using assms by (simp add: proposed_crop64_def startsWith_def Let_def)

text \<open>
  The session \<open>narrow_and_grab\<close>, step by step: the right handle is pressed at 576 and
  dragged to 272, released, and the body is pressed at 128.
\<close>

lemma handleCropMouseMove64_interaction:
  assumes "cropInteraction st = Some ci"
  shows "handleCropMouseMove64 e (Some ir) st
         = st\<lparr>crop := boundary_checks64 (proposed_crop64 (aspectRatio st) ci
               (binary64 (binary64 (binary64 (clientX e - rect_left ir) / rect_width ir) - startX ci))
               (binary64 (binary64 (binary64 (clientY e - rect_top ir) / rect_height ir) - startY ci)))\<rparr>"
  using assms by (simp add: handleCropMouseMove64_def Let_def)

lemma initial_crop64_eq:
  "initial_crop64 = \<lparr>crop_x = 3602879701896397 / 2 ^ 55, crop_y = 3602879701896397 / 2 ^ 55,
                      crop_width = 3602879701896397 / 2 ^ 52, crop_height = 3602879701896397 / 2 ^ 52\<rparr>"
  by (simp add: initial_crop64_def binary64_eval)

lemma grab_step1:
  "handleCropMouseDown64 (pointer_at 576 240) ResizeR (Some photo_rect) (Some photo_rect)
      (initial_editor64 sample_file)
   = (initial_editor64 sample_file)
       \<lparr>cropInteraction :=
          Some \<lparr>ci_type = ResizeR, startX = 8106479329266893 / 2 ^ 53, startY = 1 / 2,
                startCrop = initial_crop64\<rparr>\<rparr>"
  by (simp add: handleCropMouseDown64_def initial_editor64_def photo_rect_def pointer_at_def
        binary64_eval)

lemma grab_step2:
  "handleCropMouseMove64 (pointer_at 272 240) (Some photo_rect)
     ((initial_editor64 sample_file)
       \<lparr>cropInteraction :=
          Some \<lparr>ci_type = ResizeR, startX = 8106479329266893 / 2 ^ 53, startY = 1 / 2,
                startCrop = initial_crop64\<rparr>\<rparr>)
   = (initial_editor64 sample_file)
       \<lparr>cropInteraction :=
          Some \<lparr>ci_type = ResizeR, startX = 8106479329266893 / 2 ^ 53, startY = 1 / 2,
                startCrop = initial_crop64\<rparr>,
        crop := initial_crop64\<lparr>crop_width := 5854679515581645 / 2 ^ 54\<rparr>\<rparr>"
proof -
  let ?ci = "\<lparr>ci_type = ResizeR, startX = 8106479329266893 / 2 ^ 53, startY = 1 / 2,
               startCrop = initial_crop64\<rparr>"
  let ?st = "(initial_editor64 sample_file)\<lparr>cropInteraction := Some ?ci\<rparr>"
  let ?e = "pointer_at 272 240"
  have dx: "binary64 (binary64 (binary64 (clientX ?e - rect_left photo_rect) / rect_width photo_rect)
                      - startX ?ci) = - (8556839292003943 / 2 ^ 54)"
    by (simp add: pointer_at_def photo_rect_def binary64_eval)
  have dy: "binary64 (binary64 (binary64 (clientY ?e - rect_top photo_rect) / rect_height photo_rect)
                      - startY ?ci) = 0"
    by (simp add: pointer_at_def photo_rect_def binary64_eval)
  have ar: "aspectRatio ?st = Free"
    by (simp add: initial_editor64_def initial_editor_def)
  have p: "proposed_crop64 Free ?ci (- (8556839292003943 / 2 ^ 54)) 0
           = initial_crop64\<lparr>crop_width := 5854679515581645 / 2 ^ 54\<rparr>"
    by (simp add: proposed_crop64_def startsWith_def enforce_aspect64_def prevent_inversion64_def
          resize_edges64_def str_includes_def initial_crop64_eq binary64_eval)
  have b: "boundary_checks64 (initial_crop64\<lparr>crop_width := 5854679515581645 / 2 ^ 54\<rparr>)
           = initial_crop64\<lparr>crop_width := 5854679515581645 / 2 ^ 54\<rparr>"
    by (simp add: boundary_checks64_eq initial_crop64_eq binary64_eval)
  have h: "handleCropMouseMove64 ?e (Some photo_rect) ?st
        = ?st\<lparr>crop := boundary_checks64 (proposed_crop64 (aspectRatio ?st) ?ci
               (binary64 (binary64 (binary64 (clientX ?e - rect_left photo_rect) / rect_width photo_rect) - startX ?ci))
               (binary64 (binary64 (binary64 (clientY ?e - rect_top photo_rect) / rect_height photo_rect) - startY ?ci)))\<rparr>"
    by (rule handleCropMouseMove64_interaction) simp
  show ?thesis by (simp only: h dx dy ar p b)
qed


lemma grab_step4:
  "handleCropMouseDown64 (pointer_at 128 240) Move (Some photo_rect) (Some photo_rect)
     (handleCropMouseUp ((initial_editor64 sample_file)
       \<lparr>cropInteraction :=
          Some \<lparr>ci_type = ResizeR, startX = 8106479329266893 / 2 ^ 53, startY = 1 / 2,
                startCrop = initial_crop64\<rparr>,
        crop := initial_crop64\<lparr>crop_width := 5854679515581645 / 2 ^ 54\<rparr>\<rparr>))
   = (initial_editor64 sample_file)
       \<lparr>crop := initial_crop64\<lparr>crop_width := 5854679515581645 / 2 ^ 54\<rparr>,
        cropInteraction :=
          Some \<lparr>ci_type = Move, startX = 3602879701896397 / 2 ^ 54, startY = 1 / 2,
                startCrop = initial_crop64\<lparr>crop_width := 5854679515581645 / 2 ^ 54\<rparr>\<rparr>\<rparr>"
  by (simp add: handleCropMouseDown64_def handleCropMouseUp_def initial_editor64_def
        initial_editor_def photo_rect_def pointer_at_def binary64_eval)

lemma grabbed_editor_eq:
  "grabbed_editor
   = (initial_editor64 sample_file)
       \<lparr>crop := initial_crop64\<lparr>crop_width := 5854679515581645 / 2 ^ 54\<rparr>,
        cropInteraction :=
          Some \<lparr>ci_type = Move, startX = 3602879701896397 / 2 ^ 54, startY = 1 / 2,
                startCrop = initial_crop64\<lparr>crop_width := 5854679515581645 / 2 ^ 54\<rparr>\<rparr>\<rparr>"
  by (simp only: grabbed_editor_def narrow_and_grab_def crop_session64_def foldl.simps
        crop_step64.simps grab_step1 grab_step2 grab_step4)

lemma grabbed_editor_moved:
  "crop (handleCropMouseMove64 (pointer_at 600 240) (Some photo_rect) grabbed_editor)
   = \<lparr>crop_x = 3039929748475085 / 2 ^ 52, crop_y = 3602879701896397 / 2 ^ 55,
      crop_width = 1463669878895411 / 2 ^ 52, crop_height = 3602879701896397 / 2 ^ 52\<rparr>"
  unfolding grabbed_editor_eq
  by (simp add: handleCropMouseMove64_def proposed_crop64_def boundary_checks64_eq startsWith_def
        photo_rect_def pointer_at_def initial_crop64_eq binary64_eval)

text \<open>
  C10, as stated, fails. The session leaves a move interaction whose snapshot has the
  width 5854679515581645 / \<open>2 ^ 54\<close> (0.32500000000000007) and the height 0.8. Dragging
  the body to 600, past the right edge, gives the width 5854679515581644 / \<open>2 ^ 54\<close>
  (0.325): \<open>x\<close> is clamped to the rounded \<open>1 - width\<close>, and the rounded \<open>1 - x\<close> is
  below the width.
\<close>

theorem move_changes_width_counterexample:
  "map_option ci_type (cropInteraction grabbed_editor) = Some Move
   \<and> map_option (crop_width \<circ> startCrop) (cropInteraction grabbed_editor)
       = Some (5854679515581645 / 2 ^ 54)
   \<and> map_option (crop_height \<circ> startCrop) (cropInteraction grabbed_editor)
       = Some (3602879701896397 / 2 ^ 52)
   \<and> crop_width (crop grabbed_editor) = 5854679515581645 / 2 ^ 54
   \<and> crop_width (crop (handleCropMouseMove64 (pointer_at 600 240) (Some photo_rect) grabbed_editor))
       = 5854679515581644 / 2 ^ 54
   \<and> crop_width (crop (handleCropMouseMove64 (pointer_at 600 240) (Some photo_rect) grabbed_editor))
       \<noteq> crop_width (crop grabbed_editor)"
  unfolding grabbed_editor_moved
  by (simp add: grabbed_editor_eq initial_crop64_eq)

text \<open>
  C10, amended. In a move interaction whose snapshot has width and height in \<open>[0, 1]\<close>,
  a pointer move changes nothing in the state but the crop rectangle. Its width and
  height are never above the snapshot's and fall short of them by at most \<open>2 powi (- 52)\<close>;
  its \<open>x\<close> and \<open>y\<close> are the snapshot's, translated by the pointer's displacement and
  clamped into \<open>[0, 1 - width]\<close> and \<open>[0, 1 - height]\<close>, the two upper ends rounded.
\<close>

theorem move_keeps_size_within_rounding:
  assumes "cropInteraction st = Some ci" and "ci_type ci = Move"
    and "0 \<le> crop_width (startCrop ci)" and "crop_width (startCrop ci) \<le> 1"
    and "0 \<le> crop_height (startCrop ci)" and "crop_height (startCrop ci) \<le> 1"
    and "0 < rect_width ir" and "0 < rect_height ir"
    and "dx = binary64 (binary64 (binary64 (clientX e - rect_left ir) / rect_width ir) - startX ci)"
    and "dy = binary64 (binary64 (binary64 (clientY e - rect_top ir) / rect_height ir) - startY ci)"
    and "st' = handleCropMouseMove64 e (Some ir) st"
  shows "st' = st\<lparr>crop := crop st'\<rparr>
       \<and> crop_width (crop st') \<le> crop_width (startCrop ci)
       \<and> crop_width (startCrop ci) - 2 powi (- 52) \<le> crop_width (crop st')
       \<and> crop_height (crop st') \<le> crop_height (startCrop ci)
       \<and> crop_height (startCrop ci) - 2 powi (- 52) \<le> crop_height (crop st')
       \<and> crop_x (crop st')
           = max 0 (min (binary64 (crop_x (startCrop ci) + dx))
                        (binary64 (1 - crop_width (startCrop ci))))
       \<and> crop_y (crop st')
           = max 0 (min (binary64 (crop_y (startCrop ci) + dy))
                        (binary64 (1 - crop_height (startCrop ci))))
       \<and> 0 \<le> crop_x (crop st') \<and> crop_x (crop st') \<le> binary64 (1 - crop_width (startCrop ci))
       \<and> 0 \<le> crop_y (crop st') \<and> crop_y (crop st') \<le> binary64 (1 - crop_height (startCrop ci))"
proof -
  let ?sc = "startCrop ci"
  let ?x = "max 0 (min (binary64 (crop_x ?sc + dx)) (binary64 (1 - crop_width ?sc)))"
  let ?y = "max 0 (min (binary64 (crop_y ?sc + dy)) (binary64 (1 - crop_height ?sc)))"
  have st': "st' = st\<lparr>crop :=
               \<lparr>crop_x = ?x, crop_y = ?y,
                crop_width = min (crop_width ?sc) (binary64 (1 - ?x)),
                crop_height = min (crop_height ?sc) (binary64 (1 - ?y))\<rparr>\<rparr>"
    using assms(1,9,10,11)
    by (simp add: handleCropMouseMove64_def Let_def proposed_crop64_move [OF assms(2)]
          boundary_checks64_eq)
  have w: "0 \<le> ?x \<and> ?x \<le> binary64 (1 - crop_width ?sc)
       \<and> min (crop_width ?sc) (binary64 (1 - ?x)) \<le> crop_width ?sc
       \<and> crop_width ?sc - 2 powi (- 52) \<le> min (crop_width ?sc) (binary64 (1 - ?x))"
    using assms(3,4) by (intro clamp_then_measure) simp_all
  have h: "0 \<le> ?y \<and> ?y \<le> binary64 (1 - crop_height ?sc)
       \<and> min (crop_height ?sc) (binary64 (1 - ?y)) \<le> crop_height ?sc
       \<and> crop_height ?sc - 2 powi (- 52) \<le> min (crop_height ?sc) (binary64 (1 - ?y))"
    using assms(5,6) by (intro clamp_then_measure) simp_all
  show ?thesis unfolding st' using w h by simp
qed

theorem move_keeps_size_within_rounding_witness:
  "crop_width (crop (handleCropMouseMove64 (pointer_at 600 240) (Some photo_rect) grabbed_editor))
     \<le> 5854679515581645 / 2 ^ 54
   \<and> 5854679515581645 / 2 ^ 54 - 2 powi (- 52)
     \<le> crop_width (crop (handleCropMouseMove64 (pointer_at 600 240) (Some photo_rect) grabbed_editor))
   \<and> crop_height (crop (handleCropMouseMove64 (pointer_at 600 240) (Some photo_rect) grabbed_editor))
     \<le> 3602879701896397 / 2 ^ 52
   \<and> 3602879701896397 / 2 ^ 52 - 2 powi (- 52)
     \<le> crop_height (crop (handleCropMouseMove64 (pointer_at 600 240) (Some photo_rect) grabbed_editor))
   \<and> crop_x (crop (handleCropMouseMove64 (pointer_at 600 240) (Some photo_rect) grabbed_editor))
     \<le> binary64 (1 - 5854679515581645 / 2 ^ 54)"
proof -
  let ?ci = "\<lparr>ci_type = Move, startX = 3602879701896397 / 2 ^ 54, startY = 1 / 2,
               startCrop = initial_crop64\<lparr>crop_width := 5854679515581645 / 2 ^ 54\<rparr>\<rparr>"
  have i: "cropInteraction grabbed_editor = Some ?ci" "ci_type ?ci = Move"
    by (simp_all add: grabbed_editor_eq)
  have s: "0 \<le> crop_width (startCrop ?ci)" "crop_width (startCrop ?ci) \<le> 1"
    "0 \<le> crop_height (startCrop ?ci)" "crop_height (startCrop ?ci) \<le> 1"
    by (simp_all add: initial_crop64_eq)
  have r: "0 < rect_width photo_rect" "0 < rect_height photo_rect"
    by (simp_all add: photo_rect_def)
  have v: "crop_width (startCrop ?ci) = 5854679515581645 / 2 ^ 54"
    "crop_height (startCrop ?ci) = 3602879701896397 / 2 ^ 52"
    by (simp_all add: initial_crop64_eq)
  show ?thesis
    using move_keeps_size_within_rounding [OF i s r refl refl refl, of "pointer_at 600 240"]
    unfolding v by simp
qed

section \<open>Submitting\<close>

subsection \<open>The guard\<close>

text \<open>A trimmed string is empty exactly when every character of the string is white space.\<close>

lemma dropWhile_all_iff: "(\<forall>c \<in> set (dropWhile P s). P c) \<longleftrightarrow> (\<forall>c \<in> set s. P c)"
  by (induction s) auto

lemma trim_empty_iff: "trim s = [] \<longleftrightarrow> (\<forall>c \<in> set s. is_white_space c)"
proof -
  have "trim s = [] \<longleftrightarrow> dropWhile is_white_space (rev (dropWhile is_white_space s)) = []"
    by (simp add: trim_def)
  also have "\<dots> \<longleftrightarrow> (\<forall>c \<in> set (dropWhile is_white_space s). is_white_space c)"
    by (simp add: dropWhile_eq_Nil_conv)
  also have "\<dots> \<longleftrightarrow> (\<forall>c \<in> set s. is_white_space c)"
    by (rule dropWhile_all_iff)
  finally show ?thesis .
qed

lemma trim_example: "trim ''  Add a hat '' = ''Add a hat''"
  by (simp add: trim_def is_white_space_def)

text \<open>
  C4. When the prompt is empty or all white space, or a submission is in flight, the
  submit handler prevents the default action of the form event and does nothing else:
  the state is the one it found, and nothing leaves the browser.
\<close>

theorem submit_rejected:
  assumes "(\<forall>c \<in> set (prompt st). is_white_space c) \<or> isLoading st"
  shows "handleSubmit ev st = Completed st [PreventDefault]
       \<and> run_state (handleSubmit ev st) = st
       \<and> filter is_outbound (run_effects (handleSubmit ev st)) = []"
proof -
  have "trim (prompt st) = [] \<or> isLoading st"
    using assms by (simp add: trim_empty_iff)
  then have "handleSubmit ev st = Completed st [PreventDefault]"
    by (auto simp: handleSubmit_def)
  then show ?thesis by simp
qed

theorem submit_rejected_witness:
  "handleSubmit sample_env (hat_editor\<lparr>prompt := [CHR '' '', CHR 0x09, CHR 0xA0]\<rparr>)
     = Completed (hat_editor\<lparr>prompt := [CHR '' '', CHR 0x09, CHR 0xA0]\<rparr>) [PreventDefault]
   \<and> handleSubmit sample_env (hat_editor\<lparr>isLoading := True\<rparr>)
     = Completed (hat_editor\<lparr>isLoading := True\<rparr>) [PreventDefault]"
proof -
  have h1: "(\<forall>c \<in> set (prompt (hat_editor\<lparr>prompt := [CHR '' '', CHR 0x09, CHR 0xA0]\<rparr>)). is_white_space c)
            \<or> isLoading (hat_editor\<lparr>prompt := [CHR '' '', CHR 0x09, CHR 0xA0]\<rparr>)"
    by (simp add: is_white_space_def)
  have h2: "(\<forall>c \<in> set (prompt (hat_editor\<lparr>isLoading := True\<rparr>)). is_white_space c)
            \<or> isLoading (hat_editor\<lparr>isLoading := True\<rparr>)"
    by simp
  show ?thesis
    using submit_rejected [OF h1, of sample_env] submit_rejected [OF h2, of sample_env]
    by simp
qed

subsection \<open>A submission that fails\<close>

text \<open>
  The body of the \<^verbatim>\<open>try\<close> throws exactly when the raster step is rejected or the
  adapter is; a missing credential makes the adapter throw at once.
\<close>

lemma try_submission_cases:
  "fst (try_submission ev st) = Some (Inl err) \<longleftrightarrow>
     image_to_send ev st = Some (Inl err)
     \<or> (\<exists>f. image_to_send ev st = Some (Inr f)
             \<and> fst (editImageWithGemini ev f (prompt st)) = Inl err)"
  by (auto simp: try_submission_def split: option.splits sum.splits prod.splits)


lemma missing_key_throws:
  assumes "API_KEY ev = None \<or> API_KEY ev = Some []"
  shows "editImageWithGemini ev f p = (Inl (Error ''API_KEY environment variable is not set.''), [])"
  using assms by (auto simp: editImageWithGemini_def)

lemma try_submission_missing_key:
  assumes "API_KEY ev = None \<or> API_KEY ev = Some []"
  shows "(\<exists>r tr. try_submission ev st = (r, tr) \<and> filter is_request tr = []
            \<and> (\<forall>res. r \<noteq> Some (Inr res)))"
  using assms
  by (auto simp: try_submission_def missing_key_throws split: option.splits sum.splits)




subsection \<open>The missing credential\<close>

text \<open>
  C9. With the credential undefined or empty, the adapter throws before it reads the
  file or sends anything, whatever the file and the prompt; and a submission never
  sends a request, shows no edited result, and ends with an error whenever it ends.
\<close>

theorem missing_credential_fatal:
  assumes "API_KEY ev = None \<or> API_KEY ev = Some []"
  shows "editImageWithGemini ev f p
           = (Inl (Error ''API_KEY environment variable is not set.''), [])
       \<and> filter is_request (run_effects (handleSubmit ev st)) = []
       \<and> (trim (prompt st) \<noteq> [] \<and> \<not> isLoading st
            \<longrightarrow> editedImage (run_state (handleSubmit ev st)) = None
              \<and> (completed (handleSubmit ev st)
                   \<longrightarrow> error (run_state (handleSubmit ev st)) \<noteq> None))"
proof -
  obtain r tr where t: "try_submission ev st = (r, tr)" and nr: "filter is_request tr = []"
    and fail: "\<forall>res. r \<noteq> Some (Inr res)"
    using try_submission_missing_key [OF assms] by blast
  have eff: "filter is_request (run_effects (handleSubmit ev st)) = []"
    using t nr by (auto simp: handleSubmit_def Let_def split: option.splits sum.splits)
  have st: "editedImage (run_state (handleSubmit ev st)) = None
          \<and> (completed (handleSubmit ev st) \<longrightarrow> error (run_state (handleSubmit ev st)) \<noteq> None)"
    if "trim (prompt st) \<noteq> []" and "\<not> isLoading st"
    using that t fail by (auto simp: handleSubmit_def Let_def split: option.splits sum.splits)
  show ?thesis using missing_key_throws [OF assms] eff st by blast
qed

theorem missing_credential_fatal_witness:
  "editImageWithGemini (sample_env\<lparr>API_KEY := Some []\<rparr>) small_file ''Add a hat''
     = (Inl (Error ''API_KEY environment variable is not set.''), [])
   \<and> filter is_request (run_effects (handleSubmit (sample_env\<lparr>API_KEY := Some []\<rparr>) hat_editor)) = []
   \<and> editedImage (run_state (handleSubmit (sample_env\<lparr>API_KEY := Some []\<rparr>) hat_editor)) = None
   \<and> error (run_state (handleSubmit (sample_env\<lparr>API_KEY := Some []\<rparr>) hat_editor)) \<noteq> None"
proof -
  have h: "API_KEY (sample_env\<lparr>API_KEY := Some []\<rparr>) = None
           \<or> API_KEY (sample_env\<lparr>API_KEY := Some []\<rparr>) = Some []"
    by simp
  have g: "trim (prompt hat_editor) \<noteq> [] \<and> \<not> isLoading hat_editor"
    by (simp add: hat_editor_def initial_editor_def trim_def is_white_space_def)
  have send: "image_to_send (sample_env\<lparr>API_KEY := Some []\<rparr>) hat_editor = Some (Inr small_file)"
    by (simp add: image_to_send_def hat_editor_def initial_editor_def filters_def)
  have c: "completed (handleSubmit (sample_env\<lparr>API_KEY := Some []\<rparr>) hat_editor)"
    using g by (simp add: handleSubmit_def try_submission_def send missing_key_throws)
  show ?thesis
    using missing_credential_fatal [OF h, of small_file "''Add a hat''" hat_editor] g c
    by blast
qed

subsection \<open>What is sent\<close>

lemma find_preset:
  assumes "\<lparr>preset_name = name, preset_style = style\<rparr> \<in> set filters"
  shows "find (\<lambda>f. preset_name f = name) filters = Some \<lparr>preset_name = name, preset_style = style\<rparr>"
  using assms by (auto simp: filters_def)

lemma preset_none_iff:
  assumes "\<lparr>preset_name = name, preset_style = style\<rparr> \<in> set filters"
  shows "style = ''none'' \<longleftrightarrow> name = ''None''"
  using assms by (auto simp: filters_def)

lemma image_to_send_plain:
  assumes "\<lparr>preset_name = selectedFilter st, preset_style = style\<rparr> \<in> set filters"
    and "selectedFilter st = ''None''" and "rotation st = 0" and "blur st = 0" and "sharpen st = 0"
  shows "image_to_send ev st = Some (Inr (imageFile st))"
  using assms(2-) preset_none_iff [OF assms(1)] find_preset [OF assms(1)]
  by (simp add: image_to_send_def Let_def)

lemma image_to_send_transformed:
  assumes "\<lparr>preset_name = selectedFilter st, preset_style = style\<rparr> \<in> set filters"
    and "0 \<le> blur st" and "0 \<le> sharpen st"
    and "\<not> (selectedFilter st = ''None'' \<and> rotation st = 0 \<and> blur st = 0 \<and> sharpen st = 0)"
  shows "image_to_send ev st
         = applyTransformationsAndGetFile ev (imageFile st) style (rotation st) (blur st) (sharpen st)"
proof -
  have "style \<noteq> ''none'' \<or> rotation st \<noteq> 0 \<or> blur st > 0 \<or> sharpen st > 0"
    using assms(2-) preset_none_iff [OF assms(1)] by auto
  then show ?thesis
    using find_preset [OF assms(1)] by (simp add: image_to_send_def Let_def)
qed

lemma handleSubmit_sends:
  assumes "trim (prompt st) \<noteq> []" and "\<not> isLoading st"
    and "image_to_send ev st = Some (Inr f)"
  shows "run_effects (handleSubmit ev st)
         = PreventDefault # AdapterCall f (prompt st) # snd (editImageWithGemini ev f (prompt st))"
  using assms
  by (simp add: handleSubmit_def try_submission_def Let_def split: prod.splits option.splits sum.splits)


lemma preset_style_nonempty:
  assumes "\<lparr>preset_name = name, preset_style = style\<rparr> \<in> set filters"
  shows "style \<noteq> []"
  using assms by (auto simp: filters_def)

lemma full_filter_composite:
  assumes "style \<noteq> []"
  shows "full_filter style b s
         = join_space ((if style = ''none'' then [] else [style])
                       @ (if 0 < b then [''blur('' @ number_text b @ ''px)''] else [])
                       @ (if 0 < s then [''contrast('' @ number_text (100 + s) @ ''%)''] else []))"
  using assms by (simp add: full_filter_def Let_def)

lemma handleSubmit_nothing_sent:
  assumes "trim (prompt st) \<noteq> []" and "\<not> isLoading st"
    and "image_to_send ev st = None \<or> image_to_send ev st = Some (Inl err)"
  shows "run_effects (handleSubmit ev st) = [PreventDefault]"
  using assms by (auto simp: handleSubmit_def try_submission_def Let_def)

lemma full_filter_example:
  "full_filter ''grayscale(100%)'' 4 0 = ''grayscale(100%) blur(4px)''"
  "full_filter ''none'' 0 25 = ''contrast(125%)''"
  "full_filter ''sepia(100%)'' 10 100 = ''sepia(100%) blur(10px) contrast(200%)''"
  "full_filter ''none'' 0 0 = []"
  by (simp_all add: full_filter_def number_text_def decimal_digits.simps digit_char_def)

lemma quarter_turn_radians:
  "binary64 (binary64 (real_of_int 90 * Math_PI) / 180) = 884279719003555 / 2 ^ 49"
  by (simp add: Math_PI_def binary64_eval)

text \<open>
  C6, as stated, fails: not every submission with a transform active sends a raster.
  With the Grayscale preset and blur 4 selected, in a browser that gives no 2D context,
  the submission passes the guard, the adapter is never called and the editor shows
  \<^verbatim>\<open>Could not get canvas context\<close>.
\<close>

theorem no_context_counterexample:
  "selectedFilter (hat_editor\<lparr>selectedFilter := ''Grayscale'', blur := 4\<rparr>) = ''Grayscale''
   \<and> trim (prompt (hat_editor\<lparr>selectedFilter := ''Grayscale'', blur := 4\<rparr>)) = ''Add a hat''
   \<and> isLoading (hat_editor\<lparr>selectedFilter := ''Grayscale'', blur := 4\<rparr>) = False
   \<and> run_effects (handleSubmit (sample_env\<lparr>getContext2d := False\<rparr>)
         (hat_editor\<lparr>selectedFilter := ''Grayscale'', blur := 4\<rparr>)) = [PreventDefault]
   \<and> error (run_state (handleSubmit (sample_env\<lparr>getContext2d := False\<rparr>)
         (hat_editor\<lparr>selectedFilter := ''Grayscale'', blur := 4\<rparr>)))
       = Some ''Could not get canvas context''"
  by (simp add: handleSubmit_def try_submission_def image_to_send_def filters_def
        applyTransformationsAndGetFile_def hat_editor_def initial_editor_def small_file_def
        sample_env_def catch_message_def trim_def is_white_space_def)

text \<open>
  C6, amended. Take a submission that passes the guard, the selected filter being one
  of the presets and the two sliders not negative. With no transform active (filter
  \<^verbatim>\<open>None\<close>, rotation 0, blur 0, sharpen 0) the adapter is called with the working
  image itself. Otherwise nothing is sent when the image does not decode, the canvas
  has no context or the encoder gives no raster; and when it gives one, the adapter is
  called once, with a new PNG file holding the raster of this canvas: its sides are
  those of the image (swapped at 90 and 270 degrees); its filter is the preset's style
  (left out for \<^verbatim>\<open>None\<close>), then \<^verbatim>\<open>blur(\<close>n\<^verbatim>\<open>px)\<close> for a blur \<open>n > 0\<close>, then
  \<^verbatim>\<open>contrast(\<close>100 + n\<^verbatim>\<open>%)\<close> for a sharpen \<open>n > 0\<close>, joined by spaces; and the image is
  drawn about the centre, turned by the angle.
\<close>

theorem what_is_submitted:
  assumes "\<lparr>preset_name = selectedFilter st, preset_style = style\<rparr> \<in> set filters"
    and "0 \<le> blur st" and "0 \<le> sharpen st"
    and "trim (prompt st) \<noteq> []" and "\<not> isLoading st"
  shows "run_effects (handleSubmit ev st)
         = (if selectedFilter st = ''None'' \<and> rotation st = 0 \<and> blur st = 0 \<and> sharpen st = 0
            then PreventDefault # AdapterCall (imageFile st) (prompt st)
                   # snd (editImageWithGemini ev (imageFile st) (prompt st))
            else case file_image (imageFile st) of
                   None \<Rightarrow> [PreventDefault]
                 | Some img \<Rightarrow>
                     if \<not> getContext2d ev then [PreventDefault]
                     else case toBlob ev
                       \<lparr>canvas_width = (if rotation st = 90 \<or> rotation st = 270
                                         then image_height img else image_width img),
                        canvas_height = (if rotation st = 90 \<or> rotation st = 270
                                          then image_width img else image_height img),
                        canvas_ops =
                          [SetFilter
                             (join_space
                                ((if selectedFilter st = ''None'' then [] else [style])
                                 @ (if 0 < blur st
                                    then [''blur('' @ number_text (blur st) @ ''px)''] else [])
                                 @ (if 0 < sharpen st
                                    then [''contrast('' @ number_text (100 + sharpen st) @ ''%)'']
                                    else []))),
                           Translate
                             (real (if rotation st = 90 \<or> rotation st = 270
                                    then image_height img else image_width img) / 2)
                             (real (if rotation st = 90 \<or> rotation st = 270
                                    then image_width img else image_height img) / 2),
                           Rotate (binary64 (binary64 (real_of_int (rotation st) * Math_PI) / 180)),
                           DrawImage img (- real (image_width img) / 2)
                             (- real (image_height img) / 2)]\<rparr> of
                          None \<Rightarrow> [PreventDefault]
                        | Some raster \<Rightarrow>
                            PreventDefault
                            # AdapterCall \<lparr>file_name = ''transformed-'' @ file_name (imageFile st),
                                           file_type = ''image/png'', file_image = Some raster\<rparr>
                                (prompt st)
                            # snd (editImageWithGemini ev
                                     \<lparr>file_name = ''transformed-'' @ file_name (imageFile st),
                                      file_type = ''image/png'', file_image = Some raster\<rparr>
                                     (prompt st)))"
proof (cases "selectedFilter st = ''None'' \<and> rotation st = 0 \<and> blur st = 0 \<and> sharpen st = 0")
  case True
  then have "image_to_send ev st = Some (Inr (imageFile st))"
    using image_to_send_plain [OF assms(1)] by simp
  then have "run_effects (handleSubmit ev st)
               = PreventDefault # AdapterCall (imageFile st) (prompt st)
                   # snd (editImageWithGemini ev (imageFile st) (prompt st))"
    using assms(4,5) by (intro handleSubmit_sends)
  then show ?thesis unfolding if_P [OF True] .
next
  case False
  note active = if_not_P [OF False]
  have style: "(style = ''none'') = (selectedFilter st = ''None'')"
    by (rule preset_none_iff [OF assms(1)])
  have send: "image_to_send ev st
         = applyTransformationsAndGetFile ev (imageFile st) style (rotation st) (blur st) (sharpen st)"
    using False by (intro image_to_send_transformed [OF assms(1,2,3)])
  note composite = full_filter_composite [OF preset_style_nonempty [OF assms(1)],
      of "blur st" "sharpen st", unfolded style]
  show ?thesis
  proof (cases "file_image (imageFile st)")
    case None
    have "image_to_send ev st = None"
      unfolding send by (simp add: applyTransformationsAndGetFile_def None)
    then have "run_effects (handleSubmit ev st) = [PreventDefault]"
      using assms(4,5) by (intro handleSubmit_nothing_sent) simp_all
    then show ?thesis unfolding active by (simp only: None option.case)
  next
    case (Some img)
    have canvas: "transformed_canvas img style (rotation st) (blur st) (sharpen st)
      = \<lparr>canvas_width = (if rotation st = 90 \<or> rotation st = 270
                         then image_height img else image_width img),
         canvas_height = (if rotation st = 90 \<or> rotation st = 270
                          then image_width img else image_height img),
         canvas_ops =
           [SetFilter
              (join_space
                 ((if selectedFilter st = ''None'' then [] else [style])
                  @ (if 0 < blur st
                     then [''blur('' @ number_text (blur st) @ ''px)''] else [])
                  @ (if 0 < sharpen st
                     then [''contrast('' @ number_text (100 + sharpen st) @ ''%)'']
                     else []))),
            Translate
              (real (if rotation st = 90 \<or> rotation st = 270
                     then image_height img else image_width img) / 2)
              (real (if rotation st = 90 \<or> rotation st = 270
                     then image_width img else image_height img) / 2),
            Rotate (binary64 (binary64 (real_of_int (rotation st) * Math_PI) / 180)),
            DrawImage img (- real (image_width img) / 2)
              (- real (image_height img) / 2)]\<rparr>"
      (is "_ = ?cv")
      unfolding transformed_canvas_def Let_def composite ..
    show ?thesis
    proof (cases "getContext2d ev")
      case False
      note no_context = this
      have "image_to_send ev st = Some (Inl (Error ''Could not get canvas context''))"
        unfolding send by (simp add: applyTransformationsAndGetFile_def Some no_context)
      then have "run_effects (handleSubmit ev st) = [PreventDefault]"
        using assms(4,5) by (intro handleSubmit_nothing_sent) simp_all
      then show ?thesis
        unfolding active by (simp only: Some option.case no_context not_False_eq_True if_True)
    next
      case True
      note has_context = this
      show ?thesis
      proof (cases "toBlob ev ?cv")
        case None
        have "image_to_send ev st = Some (Inl (Error ''Canvas to Blob conversion failed''))"
          unfolding send applyTransformationsAndGetFile_def
          by (simp only: Some option.case has_context not_True_eq_False if_False canvas None)
        then have "run_effects (handleSubmit ev st) = [PreventDefault]"
          using assms(4,5) by (intro handleSubmit_nothing_sent) simp_all
        then show ?thesis
          unfolding active
          by (simp only: Some option.case has_context not_True_eq_False if_False None)
      next
        case (Some raster)
        note raster = this
        let ?sent = "\<lparr>file_name = ''transformed-'' @ file_name (imageFile st),
                       file_type = ''image/png'', file_image = Some raster\<rparr>"
        have "image_to_send ev st = Some (Inr ?sent)"
          unfolding send applyTransformationsAndGetFile_def
          by (simp only: \<open>file_image (imageFile st) = Some img\<close> option.case has_context
                not_True_eq_False if_False canvas raster)
        then have "run_effects (handleSubmit ev st)
                 = PreventDefault # AdapterCall ?sent (prompt st)
                     # snd (editImageWithGemini ev ?sent (prompt st))"
          using assms(4,5) by (intro handleSubmit_sends)
        then show ?thesis
          unfolding active
          by (simp only: \<open>file_image (imageFile st) = Some img\<close> option.case has_context
                not_True_eq_False if_False raster)
      qed
    qed
  qed
qed

text \<open>
  The plain editor sends its own file. The turned editor asks for exactly
  \<open>turned_canvas\<close>, whose raster is sent; with blur 5 in place of 4 the filter of the
  canvas differs, the browser of the example gives no raster, and nothing is sent.
\<close>

theorem what_is_submitted_witness:
  "run_effects (handleSubmit sample_env hat_editor)
     = PreventDefault # AdapterCall small_file ''Add a hat''
         # snd (editImageWithGemini sample_env small_file ''Add a hat'')
   \<and> run_effects (handleSubmit darkroom_env turned_editor)
     = PreventDefault
         # AdapterCall \<lparr>file_name = ''transformed-strip.jpg'', file_type = ''image/png'',
                         file_image = Some [[4, 1], [5, 2], [6, 3]]\<rparr> ''Add a hat''
         # snd (editImageWithGemini darkroom_env
                  \<lparr>file_name = ''transformed-strip.jpg'', file_type = ''image/png'',
                   file_image = Some [[4, 1], [5, 2], [6, 3]]\<rparr> ''Add a hat'')
   \<and> run_effects (handleSubmit darkroom_env (turned_editor\<lparr>blur := 5\<rparr>)) = [PreventDefault]"
proof -
  let ?more = "turned_editor\<lparr>blur := 5\<rparr>"
  have p1: "\<lparr>preset_name = selectedFilter hat_editor, preset_style = ''none''\<rparr> \<in> set filters"
    by (simp add: hat_editor_def initial_editor_def filters_def)
  have p2: "\<lparr>preset_name = selectedFilter turned_editor, preset_style = ''sepia(100%)''\<rparr>
              \<in> set filters"
    and p3: "\<lparr>preset_name = selectedFilter ?more, preset_style = ''sepia(100%)''\<rparr> \<in> set filters"
    by (simp_all add: turned_editor_def initial_editor_def filters_def)
  have b1: "0 \<le> blur hat_editor" "0 \<le> sharpen hat_editor"
    by (simp_all add: hat_editor_def initial_editor_def)
  have b2: "0 \<le> blur turned_editor" "0 \<le> sharpen turned_editor"
    and b3: "0 \<le> blur ?more" "0 \<le> sharpen ?more"
    by (simp_all add: turned_editor_def initial_editor_def)
  have g1: "trim (prompt hat_editor) \<noteq> []" "\<not> isLoading hat_editor"
    by (simp_all add: hat_editor_def initial_editor_def trim_def is_white_space_def)
  have g2: "trim (prompt turned_editor) \<noteq> []" "\<not> isLoading turned_editor"
    and g3: "trim (prompt ?more) \<noteq> []" "\<not> isLoading ?more"
    by (simp_all add: turned_editor_def initial_editor_def trim_def is_white_space_def)
  have first: "run_effects (handleSubmit sample_env hat_editor)
     = PreventDefault # AdapterCall small_file ''Add a hat''
         # snd (editImageWithGemini sample_env small_file ''Add a hat'')"
    using what_is_submitted [OF p1 b1 g1, of sample_env]
    by (simp add: hat_editor_def initial_editor_def)
  have second: "run_effects (handleSubmit darkroom_env turned_editor)
     = PreventDefault
         # AdapterCall \<lparr>file_name = ''transformed-strip.jpg'', file_type = ''image/png'',
                         file_image = Some [[4, 1], [5, 2], [6, 3]]\<rparr> ''Add a hat''
         # snd (editImageWithGemini darkroom_env
                  \<lparr>file_name = ''transformed-strip.jpg'', file_type = ''image/png'',
                   file_image = Some [[4, 1], [5, 2], [6, 3]]\<rparr> ''Add a hat'')"
    using what_is_submitted [OF p2 b2 g2, of darkroom_env]
    by (simp add: turned_editor_def initial_editor_def strip_file_def darkroom_env_def
          sample_env_def turned_toBlob_def turned_canvas_def image_width_def image_height_def
          number_text_def decimal_digits.simps digit_char_def Math_PI_def binary64_eval)
  have third: "run_effects (handleSubmit darkroom_env ?more) = [PreventDefault]"
    using what_is_submitted [OF p3 b3 g3, of darkroom_env]
    by (simp add: turned_editor_def initial_editor_def strip_file_def darkroom_env_def
          sample_env_def turned_toBlob_def turned_canvas_def image_width_def image_height_def
          number_text_def decimal_digits.simps digit_char_def Math_PI_def binary64_eval)
  show ?thesis using first second third by simp
qed

section \<open>Applying the crop\<close>

lemma image_width_hd: "b \<noteq> [] \<Longrightarrow> image_width b = length (hd b)"
  by (cases b) (simp_all add: image_width_def)

lemma region_height:
  assumes "y + h \<le> image_height img"
  shows "image_height (region img x y w h) = h"
  using assms by (simp add: region_def image_height_def)

lemma region_row:
  assumes "y + h \<le> image_height img" and "i < h"
  shows "region img x y w h ! i = take w (drop x (img ! (y + i)))"
  using assms by (simp add: region_def image_height_def)

lemma rectangular_row:
  assumes "rectangular img" and "i < image_height img"
  shows "length (img ! i) = image_width img"
  using assms by (simp add: rectangular_def image_height_def)

lemma region_width:
  assumes "rectangular img" and "x + w \<le> image_width img" and "y + h \<le> image_height img"
    and "0 < h"
  shows "image_width (region img x y w h) = w"
proof -
  have ne: "region img x y w h \<noteq> []"
    using region_height [OF assms(3), of x w] assms(4) by (auto simp: image_height_def)
  have "hd (region img x y w h) = region img x y w h ! 0"
    using ne by (simp add: hd_conv_nth)
  also have "\<dots> = take w (drop x (img ! y))"
    using region_row [OF assms(3,4), of x w] by simp
  finally have "image_width (region img x y w h) = length (take w (drop x (img ! y)))"
    using ne by (simp add: image_width_hd)
  also have "\<dots> = w"
    using rectangular_row [OF assms(1), of y] assms(2,3,4) by simp
  finally show ?thesis .
qed

lemma region_rectangular:
  assumes "rectangular img" and "x + w \<le> image_width img" and "y + h \<le> image_height img"
  shows "rectangular (region img x y w h)"
proof (cases "h = 0")
  case True
  then show ?thesis by (simp add: rectangular_def region_def)
next
  case False
  then have w: "image_width (region img x y w h) = w"
    using assms by (intro region_width) simp_all
  have "length row = w" if member: "row \<in> set (region img x y w h)" for row
  proof -
    obtain i where i: "i < h" and row: "row = region img x y w h ! i"
      using member region_height [OF assms(3), of x w]
      by (auto simp: in_set_conv_nth image_height_def)
    have "row = take w (drop x (img ! (y + i)))"
      using region_row [OF assms(3) i] row by simp
    then show ?thesis
      using rectangular_row [OF assms(1), of "y + i"] assms(2,3) i by simp
  qed
  then show ?thesis by (simp add: rectangular_def w)
qed

lemma region_pixel:
  assumes "rectangular img" and "x + w \<le> image_width img" and "y + h \<le> image_height img"
    and "i < h" and "j < w"
  shows "region img x y w h ! i ! j = img ! (y + i) ! (x + j)"
proof -
  have "region img x y w h ! i ! j = take w (drop x (img ! (y + i))) ! j"
    using region_row [OF assms(3,4)] by simp
  also have "\<dots> = img ! (y + i) ! (x + j)"
    using rectangular_row [OF assms(1), of "y + i"] assms(2,3,4,5) by simp
  finally show ?thesis .
qed

lemma crop_canvas_scenario:
  assumes "image_width img = 1000" and "image_height img = 800"
    and "c = \<lparr>crop_x = 0.25, crop_y = 0.25, crop_width = 0.5, crop_height = 0.5\<rparr>"
  shows "crop_canvas img c
         = \<lparr>canvas_width = 500, canvas_height = 400,
            canvas_ops = [DrawImageRect img 250 200 500 400 0 0 500 400]\<rparr>"
  using assms by (simp add: crop_canvas_def canvas_dimension_def Let_def)

lemma sample_env_copies: "copies_aligned_regions sample_env"
  by (simp add: copies_aligned_regions_def sample_env_def sample_toBlob_def)

lemma gradient_image_size:
  "image_width gradient_image = 1000" "image_height gradient_image = 800"
  "rectangular gradient_image"
proof -
  have ne: "gradient_image \<noteq> []" by (simp add: gradient_image_def)
  have "hd gradient_image = map (\<lambda>x. x + 1000 * 0) [0..<1000]"
    by (simp add: gradient_image_def hd_map)
  then show w: "image_width gradient_image = 1000"
    using ne by (simp add: image_width_hd)
  show "image_height gradient_image = 800"
    by (simp add: image_height_def gradient_image_def)
  show "rectangular gradient_image"
    unfolding rectangular_def w by (auto simp: gradient_image_def)
qed

lemma gradient_pixel:
  assumes "y < 800" and "x < 1000"
  shows "gradient_image ! y ! x = x + 1000 * y"
  using assms by (simp add: gradient_image_def)

text \<open>
  C3. On a rectangular 1000 by 800 working image, with the crop rectangle x = 0.25,
  y = 0.25, width = 0.5, height = 0.5, a browser that gives a context and copies aligned
  source rectangles faithfully: applying the crop makes the working image a PNG of
  exactly 500 by 400 pixels, the pixel in column \<open>j\<close> of its row \<open>i\<close> being the
  source's pixel in column \<open>250 + j\<close> of row \<open>200 + i\<close>, and leaves crop mode.
\<close>

theorem apply_crop_scenario:
  assumes "copies_aligned_regions ev" and "getContext2d ev"
    and "file_image (imageFile st) = Some img" and "rectangular img"
    and "image_width img = 1000" and "image_height img = 800"
    and "crop st = \<lparr>crop_x = 0.25, crop_y = 0.25, crop_width = 0.5, crop_height = 0.5\<rparr>"
    and "st' = handleApplyCrop ev st"
  shows "file_image (imageFile st') = Some (region img 250 200 500 400)
       \<and> image_width (region img 250 200 500 400) = 500
       \<and> image_height (region img 250 200 500 400) = 400
       \<and> rectangular (region img 250 200 500 400)
       \<and> (\<forall>i < 400. \<forall>j < 500. region img 250 200 500 400 ! i ! j = img ! (200 + i) ! (250 + j))
       \<and> file_type (imageFile st') = ''image/png''
       \<and> \<not> isCropping st'"
proof -
  have blob: "toBlob ev (crop_canvas img (crop st)) = Some (region img 250 200 500 400)"
  proof -
    have "toBlob ev \<lparr>canvas_width = 500, canvas_height = 400,
                     canvas_ops = [DrawImageRect img (real 250) (real 200) (real 500) (real 400)
                                     0 0 (real 500) (real 400)]\<rparr>
          = Some (region img 250 200 500 400)"
      using assms(1) [unfolded copies_aligned_regions_def, rule_format, of 250 500 img 200 400]
        assms(5,6)
      by simp
    then show ?thesis
      unfolding crop_canvas_scenario [OF assms(5,6,7)] by simp
  qed
  have st': "st' = (onSetNewOriginal
                \<lparr>file_name = ''cropped-'' @ file_name (imageFile st), file_type = ''image/png'',
                 file_image = Some (region img 250 200 500 400)\<rparr> st)\<lparr>isCropping := False\<rparr>"
    using assms(2,3,8) blob by (simp add: handleApplyCrop_def Let_def)
  have dims: "image_width (region img 250 200 500 400) = 500
       \<and> image_height (region img 250 200 500 400) = 400
       \<and> rectangular (region img 250 200 500 400)"
    using assms(4,5,6) by (simp add: region_width region_height region_rectangular)
  have px: "\<forall>i < 400. \<forall>j < 500. region img 250 200 500 400 ! i ! j = img ! (200 + i) ! (250 + j)"
    using assms(4,5,6) by (simp add: region_pixel)
  show ?thesis
    using dims px by (simp add: st' onSetNewOriginal_def)
qed

theorem apply_crop_scenario_witness:
  "file_image (imageFile (handleApplyCrop sample_env cropping_editor))
     = Some (region gradient_image 250 200 500 400)
   \<and> image_width (region gradient_image 250 200 500 400) = 500
   \<and> image_height (region gradient_image 250 200 500 400) = 400
   \<and> region gradient_image 250 200 500 400 ! 0 ! 0 = 200250
   \<and> region gradient_image 250 200 500 400 ! 399 ! 499 = 599749
   \<and> \<not> isCropping (handleApplyCrop sample_env cropping_editor)"
proof -
  have h2: "getContext2d sample_env" by (simp add: sample_env_def)
  have h3: "file_image (imageFile cropping_editor) = Some gradient_image"
    by (simp add: cropping_editor_def initial_editor_def gradient_file_def)
  have h7: "crop cropping_editor
            = \<lparr>crop_x = 0.25, crop_y = 0.25, crop_width = 0.5, crop_height = 0.5\<rparr>"
    by (simp add: cropping_editor_def scenario_crop_def)
  note main = apply_crop_scenario [OF sample_env_copies h2 h3 gradient_image_size(3)
      gradient_image_size(1) gradient_image_size(2) h7 refl]
  have px: "\<forall>i < 400. \<forall>j < 500.
              region gradient_image 250 200 500 400 ! i ! j = gradient_image ! (200 + i) ! (250 + j)"
    using main by blast
  have p0: "region gradient_image 250 200 500 400 ! 0 ! 0 = gradient_image ! (200 + 0) ! (250 + 0)"
    using px [rule_format, of 0 0] by simp
  have p1: "region gradient_image 250 200 500 400 ! 399 ! 499
            = gradient_image ! (200 + 399) ! (250 + 499)"
    using px [rule_format, of 399 499] by simp
  show ?thesis
    using main p0 p1 by (simp add: gradient_pixel)
qed

end
